theory Spec2Isabelle
  imports Complex_Main "HOL-Library.Multiset"
begin

section \<open>Go values\<close>

text \<open>
  The exporter computes GPU quantities as \<^verbatim>\<open>float64\<close>. They are modelled by exact
  reals, which have no rounding, no infinities and no NaN. The statements below take
  this into account: they either hold of the code whatever the quantities are (which
  branch is taken, what is returned unchanged, what is logged and counted, the formulas
  of the derived fields), or evaluate the code on small natural numbers, or add
  quantities only where they are natural numbers with a total of at most \<open>2 ^ 53\<close>,
  where the addition of \<^verbatim>\<open>float64\<close> is exact. A Go \<^verbatim>\<open>error\<close> is a value
  \<open>Error msg\<close>; a run-time panic (a slice or index out of range) is the value
  \<open>Panic\<close>, so that a function that cannot panic is one that never returns it.
\<close>

type_synonym float64 = real

datatype go_error = Error string | Panic

fun err_msg :: "go_error \<Rightarrow> string" where
  "err_msg (Error m) = m"
| "err_msg Panic = ''panic''"

section \<open>Standard-library functions called by the source\<close>

text \<open>
  Go strings are byte sequences, as \<^typ>\<open>string\<close> is. \<^verbatim>\<open>strings.TrimSpace\<close> and
  \<^verbatim>\<open>bytes.TrimSpace\<close> remove, first from the front and then from the back, every
  white-space character of Unicode in its UTF-8 encoding: the six ASCII bytes, U+0085
  and U+00A0 (two bytes), and U+1680, U+2000 to U+200A, U+2028, U+2029, U+202F, U+205F
  and U+3000 (three bytes). A byte that does not start or end such an encoding stops
  the trimming, as a character that is no white space or an invalid encoding does in
  the library. Every separator the source splits on is one byte long, so \<open>Split\<close>
  takes a byte.
\<close>

definition isSpace :: "char \<Rightarrow> bool" where
  "isSpace c = (c = CHR 0x09 \<or> c = CHR 0x0A \<or> c = CHR 0x0B \<or> c = CHR 0x0C
                \<or> c = CHR 0x0D \<or> c = CHR 0x20)"

definition isSpace2 :: "char \<Rightarrow> char \<Rightarrow> bool" where
  "isSpace2 a b = (a = CHR 0xC2 \<and> (b = CHR 0x85 \<or> b = CHR 0xA0))"

definition isSpace3 :: "char \<Rightarrow> char \<Rightarrow> char \<Rightarrow> bool" where
  "isSpace3 a b c =
     ((a = CHR 0xE1 \<and> b = CHR 0x9A \<and> c = CHR 0x80)
      \<or> (a = CHR 0xE2 \<and> b = CHR 0x80
          \<and> ((128 \<le> (of_char c :: nat) \<and> (of_char c :: nat) \<le> 138)
               \<or> c = CHR 0xA8 \<or> c = CHR 0xA9 \<or> c = CHR 0xAF))
      \<or> (a = CHR 0xE2 \<and> b = CHR 0x81 \<and> c = CHR 0x9F)
      \<or> (a = CHR 0xE3 \<and> b = CHR 0x80 \<and> c = CHR 0x80))"

fun TrimLeftSpace :: "string \<Rightarrow> string" where
  "TrimLeftSpace (a # b # c # s) =
     (if isSpace a then TrimLeftSpace (b # c # s)
      else if isSpace2 a b then TrimLeftSpace (c # s)
      else if isSpace3 a b c then TrimLeftSpace s
      else a # b # c # s)"
| "TrimLeftSpace [a, b] =
     (if isSpace a then TrimLeftSpace [b] else if isSpace2 a b then [] else [a, b])"
| "TrimLeftSpace [a] = (if isSpace a then [] else [a])"
| "TrimLeftSpace [] = []"

text \<open>The same from the back, on the reversed string: its first byte is the last of the
  original.\<close>

fun TrimRightSpace_rev :: "string \<Rightarrow> string" where
  "TrimRightSpace_rev (c # b # a # s) =
     (if isSpace c then TrimRightSpace_rev (b # a # s)
      else if isSpace2 b c then TrimRightSpace_rev (a # s)
      else if isSpace3 a b c then TrimRightSpace_rev s
      else c # b # a # s)"
| "TrimRightSpace_rev [c, b] =
     (if isSpace c then TrimRightSpace_rev [b] else if isSpace2 b c then [] else [c, b])"
| "TrimRightSpace_rev [c] = (if isSpace c then [] else [c])"
| "TrimRightSpace_rev [] = []"

definition TrimSpace :: "string \<Rightarrow> string" where
  "TrimSpace s = rev (TrimRightSpace_rev (rev (TrimLeftSpace s)))"

definition Trim :: "string \<Rightarrow> string \<Rightarrow> string" where
  "Trim s cutset =
     rev (dropWhile (\<lambda>c. c \<in> set cutset) (rev (dropWhile (\<lambda>c. c \<in> set cutset) s)))"

fun HasPrefix :: "string \<Rightarrow> string \<Rightarrow> bool" where
  "HasPrefix s [] = True"
| "HasPrefix [] (p # ps) = False"
| "HasPrefix (c # cs) (p # ps) = (c = p \<and> HasPrefix cs ps)"

text \<open>\<open>Index s sub\<close> is the position of the first occurrence of \<open>sub\<close>, or \<open>-1\<close>.\<close>

fun Index :: "string \<Rightarrow> string \<Rightarrow> int" where
  "Index [] sub = (if sub = [] then 0 else - 1)"
| "Index (c # cs) sub =
     (if HasPrefix (c # cs) sub then 0
      else (let i = Index cs sub in if i = - 1 then - 1 else i + 1))"

definition Contains :: "string \<Rightarrow> string \<Rightarrow> bool" where
  "Contains s sub = (0 \<le> Index s sub)"

text \<open>
  \<^verbatim>\<open>strings.ToLower\<close> on the letters A to Z. The source uses it only to look for
  the text \<^verbatim>\<open>gpu\<close>, and the lower-casing of characters outside ASCII neither
  yields nor removes the letters g, p and u.
\<close>

definition lower :: "char \<Rightarrow> char" where
  "lower c = (let n = (of_char c :: nat) in if 65 \<le> n \<and> n \<le> 90 then char_of (n + 32) else c)"

definition ToLower :: "string \<Rightarrow> string" where
  "ToLower s = map lower s"

fun Split :: "string \<Rightarrow> char \<Rightarrow> string list" where
  "Split [] sep = [[]]"
| "Split (c # cs) sep =
     (if c = sep then [] # Split cs sep
      else (case Split cs sep of [] \<Rightarrow> [[c]] | p # ps \<Rightarrow> (c # p) # ps))"

text \<open>The slice expressions \<^verbatim>\<open>s[i:]\<close>, \<^verbatim>\<open>s[:i]\<close> and the index expression \<^verbatim>\<open>xs[i]\<close>
  panic out of range.\<close>

definition slice_from :: "string \<Rightarrow> int \<Rightarrow> go_error + string" where
  "slice_from s i = (if 0 \<le> i \<and> i \<le> int (length s) then Inr (drop (nat i) s) else Inl Panic)"

definition slice_to :: "string \<Rightarrow> int \<Rightarrow> go_error + string" where
  "slice_to s i = (if 0 \<le> i \<and> i \<le> int (length s) then Inr (take (nat i) s) else Inl Panic)"

definition index_at :: "'a list \<Rightarrow> int \<Rightarrow> go_error + 'a" where
  "index_at xs i = (if 0 \<le> i \<and> i < int (length xs) then Inr (xs ! nat i) else Inl Panic)"

text \<open>
  \<^verbatim>\<open>strconv.ParseFloat\<close> is a parameter \<open>pf\<close> of the parser: \<open>pf s = Some v\<close> when
  the text parses to \<open>v\<close>, \<open>None\<close> when it returns an error. The general theorems
  hold for every such function. \<open>ParseFloat_dec\<close> is the library function on
  optionally signed decimal integer literals, where its value is beyond doubt; it is
  used to evaluate the parser on concrete strings.
\<close>

definition isDigit :: "char \<Rightarrow> bool" where
  "isDigit c = (48 \<le> (of_char c :: nat) \<and> (of_char c :: nat) \<le> 57)"

definition ParseFloat_dec :: "string \<Rightarrow> float64 option" where
  "ParseFloat_dec s =
     (let (neg, ds) = (case s of [] \<Rightarrow> (False, s)
                       | c # r \<Rightarrow> if c = CHR ''-'' then (True, r)
                                  else if c = CHR ''+'' then (False, r) else (False, s))
      in if ds \<noteq> [] \<and> list_all isDigit ds
         then Some ((if neg then - 1 else 1) * real (foldl (\<lambda>n c. 10 * n + (of_char c - 48)) 0 ds))
         else None)"

section \<open>parseGresGpuCount\<close>

text \<open>
  The TRES loop of \<^verbatim>\<open>parseGresGpuCount\<close>: it returns from inside the loop at the first
  part that starts with \<^verbatim>\<open>gres/gpu\<close>, has text after its first \<^verbatim>\<open>=\<close>, and whose text
  parses; it returns 0 when the parts run out.
\<close>

fun parseGresGpuCount_tres :: "(string \<Rightarrow> float64 option) \<Rightarrow> string list \<Rightarrow> go_error + float64" where
  "parseGresGpuCount_tres pf [] = Inr 0"
| "parseGresGpuCount_tres pf (p # ps) =
     (let part = TrimSpace p in
      if HasPrefix part ''gres/gpu'' then
        (let eqIdx = Index part ''='' in
         if eqIdx \<noteq> - 1 \<and> eqIdx < int (length part) - 1 then
           (case slice_from part (eqIdx + 1) of
              Inl e \<Rightarrow> Inl e
            | Inr countStr \<Rightarrow>
                (case pf countStr of
                   Some cnt \<Rightarrow> Inr cnt
                 | None \<Rightarrow> parseGresGpuCount_tres pf ps))
         else parseGresGpuCount_tres pf ps)
      else parseGresGpuCount_tres pf ps)"

text \<open>
  The accumulating loops of the source (\<^verbatim>\<open>total += gpuCount\<close>): the results of the
  calls are added from the left, and a panic in a call ends the loop.
\<close>

fun sum_loop :: "float64 \<Rightarrow> (go_error + float64) list \<Rightarrow> go_error + float64" where
  "sum_loop tot [] = Inr tot"
| "sum_loop tot (Inl e # rs) = Inl e"
| "sum_loop tot (Inr gpuCount # rs) = sum_loop (tot + gpuCount) rs"

text \<open>
  The debug log line written when the last field of a single token does not parse is
  the function's only effect and is left out.
\<close>

function parseGresGpuCount :: "(string \<Rightarrow> float64 option) \<Rightarrow> string \<Rightarrow> go_error + float64" where
  "parseGresGpuCount pf gres =
     (if gres = [] \<or> gres = ''N/A'' \<or> gres = ''(null)'' then Inr 0
      else if Contains gres ''='' then parseGresGpuCount_tres pf (Split gres CHR '','')
      else if Contains gres '','' then
        sum_loop 0 (map (\<lambda>part. parseGresGpuCount pf (TrimSpace part)) (Split gres CHR '',''))
      else
        (case (let idx = Index gres ''('' in
               if idx \<noteq> - 1 then slice_to gres idx else Inr gres) of
           Inl e \<Rightarrow> Inl e
         | Inr gres1 \<Rightarrow>
             if \<not> Contains (ToLower gres1) ''gpu'' then Inr 0
             else
               (let parts = Split gres1 CHR '':'' in
                if length parts < 2 then Inr 0
                else
                  (case index_at parts (int (length parts) - 1) of
                     Inl e \<Rightarrow> Inl e
                   | Inr countStr \<Rightarrow>
                       (case pf countStr of
                          None \<Rightarrow> Inr 0
                        | Some cnt \<Rightarrow> Inr cnt)))))"
  by pat_completeness auto
termination
proof (relation "measure (\<lambda>(pf, s). length (filter (\<lambda>c. c = CHR '','') s))")
  show "wf (measure (\<lambda>(pf, s). length (filter (\<lambda>c. c = CHR '','') s)))" by simp
next
  fix pf :: "string \<Rightarrow> float64 option" and gres x :: string
  assume c: "Contains gres '',''" and x: "x \<in> set (Split gres CHR '','')"
  have no_sep: "sep \<notin> set y" if "y \<in> set (Split s sep)" for s sep y
    using that by (induction s arbitrary: y) (auto split: if_splits list.splits)
  have found: "0 \<le> Index s [k] \<longleftrightarrow> k \<in> set s" for s k
    by (induction s) (auto simp: Let_def)
  from x have "CHR '','' \<notin> set x" by (rule no_sep)
  moreover have "set (TrimSpace x) \<subseteq> set x"
  proof -
    have l: "set (TrimLeftSpace y) \<subseteq> set y" for y
      by (induction y rule: TrimLeftSpace.induct) (auto split: if_splits)
    have r: "set (TrimRightSpace_rev y) \<subseteq> set y" for y
      by (induction y rule: TrimRightSpace_rev.induct) (auto split: if_splits)
    from r [of "rev (TrimLeftSpace x)"] l [of x] show ?thesis
      by (auto simp: TrimSpace_def)
  qed
  ultimately have "CHR '','' \<notin> set (TrimSpace x)" by blast
  then have a: "filter (\<lambda>c. c = CHR '','') (TrimSpace x) = []"
    by (auto simp: filter_empty_conv)
  from c have "CHR '','' \<in> set gres" by (simp add: Contains_def found)
  then have b: "filter (\<lambda>c. c = CHR '','') gres \<noteq> []"
    by (auto simp: filter_empty_conv)
  from a b show "((pf, TrimSpace x), (pf, gres)) \<in> measure (\<lambda>(pf, s). length (filter (\<lambda>c. c = CHR '','') s))"
    by simp
qed

declare parseGresGpuCount.simps [simp del]

section \<open>Data model\<close>

record GpuMetrics =
  Alloc :: float64
  Idle :: float64
  Total :: float64
  Utilization :: float64

text \<open>The decoded JSON responses; the \<^verbatim>\<open>Meta\<close> envelope is never read and is left out.\<close>

record sinfoGpuNode =
  Gres :: string

record sinfoGpuResponse =
  sinfo_Errors :: "string list"
  Nodes :: "sinfoGpuNode list"

record sacctGpuJob =
  AllocGRES :: string

record sacctGpuResponse =
  sacct_Errors :: "string list"
  Jobs :: "sacctGpuJob list"

text \<open>
  \<^verbatim>\<open>gpuCache\<close>, with its fields \<^verbatim>\<open>t\<close>, \<^verbatim>\<open>limit\<close>, \<^verbatim>\<open>cache\<close> and \<^verbatim>\<open>duration\<close>. A
  time is a reading of the monotonic clock in nanoseconds, a duration a difference of
  two readings. The mutex is not part of the sequential model.
\<close>

record gpuCache =
  cache_t :: int
  cache_limit :: float64
  cache_cache :: "GpuMetrics option"
  cache_duration :: int

text \<open>
  Modelled from the spec: the \<^verbatim>\<open>SlurmByteScraper\<close> interface and its implementations
  are not among the source files. A scraper executes one external command and returns
  its raw output or an error; \<^verbatim>\<open>Duration()\<close> returns the wall time of the most recent
  invocation. Its state is the number of invocations made and that wall time.
\<close>

record scraper =
  calls :: nat
  last_duration :: int

datatype scraper_id = Sinfo | Sacct

datatype log_entry = slog_Error string string

text \<open>
  The state a fetcher works on. \<^verbatim>\<open>GpuJsonFetcher\<close> and \<^verbatim>\<open>GpuCliFallbackFetcher\<close> have
  the same four fields. With them go the process log, the number of clock readings
  taken so far, and the scraper invocations in the order they were made (newest
  first, each with its wall time), which no code reads: it is the instrumentation
  the statements about invocations refer to.
\<close>

record state =
  sinfoScraper :: scraper
  sacctScraper :: scraper
  errorCounter :: nat
  cache :: gpuCache
  slog :: "log_entry list"
  ticks :: nat
  scrapes :: "(scraper_id \<times> int) list"

text \<open>
  What lies outside the program: the successive readings of the clock, the outcome
  and wall time of the k-th invocation of each command, and the library decoders
  (\<^verbatim>\<open>json.Unmarshal\<close> into each response type, the \<^verbatim>\<open>csv.Reader\<close> with separator
  \<^verbatim>\<open>|\<close> and lazy quotes, \<^verbatim>\<open>strconv.ParseFloat\<close>).
\<close>

record env =
  clock :: "nat \<Rightarrow> int"
  sinfo_run :: "nat \<Rightarrow> (go_error + string) \<times> int"
  sacct_run :: "nat \<Rightarrow> (go_error + string) \<times> int"
  json_sinfo :: "string \<Rightarrow> go_error + sinfoGpuResponse"
  json_sacct :: "string \<Rightarrow> go_error + sacctGpuResponse"
  csv_ReadAll :: "string \<Rightarrow> go_error + string list list"
  ParseFloat :: "string \<Rightarrow> float64 option"

definition time_Now :: "env \<Rightarrow> state \<Rightarrow> int \<times> state" where
  "time_Now env s = (clock env (ticks s), s\<lparr>ticks := Suc (ticks s)\<rparr>)"

definition Seconds :: "int \<Rightarrow> float64" where
  "Seconds d = real_of_int d / 1000000000"

definition sinfo_FetchRawBytes :: "env \<Rightarrow> state \<Rightarrow> (go_error + string) \<times> state" where
  "sinfo_FetchRawBytes env s =
     (let (out, took) = sinfo_run env (calls (sinfoScraper s)) in
      (out, s\<lparr>sinfoScraper := \<lparr>calls = Suc (calls (sinfoScraper s)), last_duration = took\<rparr>,
               scrapes := (Sinfo, took) # scrapes s\<rparr>))"

definition sacct_FetchRawBytes :: "env \<Rightarrow> state \<Rightarrow> (go_error + string) \<times> state" where
  "sacct_FetchRawBytes env s =
     (let (out, took) = sacct_run env (calls (sacctScraper s)) in
      (out, s\<lparr>sacctScraper := \<lparr>calls = Suc (calls (sacctScraper s)), last_duration = took\<rparr>,
               scrapes := (Sacct, took) # scrapes s\<rparr>))"

section \<open>The structured-JSON fetcher\<close>

definition GpuJsonFetcher_fetchTotalGpus :: "env \<Rightarrow> state \<Rightarrow> (go_error + float64) \<times> state" where
  "GpuJsonFetcher_fetchTotalGpus env s =
     (case sinfo_FetchRawBytes env s of
        (Inl err, s1) \<Rightarrow> (Inl err, s1)
      | (Inr cliJson, s1) \<Rightarrow>
          (case json_sinfo env cliJson of
             Inl err \<Rightarrow>
               (Inl err,
                s1\<lparr>slog := slog s1 @ [slog_Error ''Unmarshaling sinfo GPU metrics: %q'' (err_msg err)]\<rparr>)
           | Inr sinfoResp \<Rightarrow>
               if length (sinfo_Errors sinfoResp) > 0 then
                 (Inl (Error (hd (sinfo_Errors sinfoResp))),
                  s1\<lparr>slog := slog s1 @ map (slog_Error ''sinfo API error response: %q'')
                                          (sinfo_Errors sinfoResp),
                     errorCounter := errorCounter s1 + length (sinfo_Errors sinfoResp)\<rparr>)
               else
                 (sum_loop 0 (map (\<lambda>node. parseGresGpuCount (ParseFloat env) (Gres node))
                                  (Nodes sinfoResp)),
                  s1)))"

definition GpuJsonFetcher_fetchAllocatedGpus :: "env \<Rightarrow> state \<Rightarrow> (go_error + float64) \<times> state" where
  "GpuJsonFetcher_fetchAllocatedGpus env s =
     (case sacct_FetchRawBytes env s of
        (Inl err, s1) \<Rightarrow> (Inl err, s1)
      | (Inr cliJson, s1) \<Rightarrow>
          (case json_sacct env cliJson of
             Inl err \<Rightarrow>
               (Inl err,
                s1\<lparr>slog := slog s1 @ [slog_Error ''Unmarshaling sacct GPU metrics: %q'' (err_msg err)]\<rparr>)
           | Inr sacctResp \<Rightarrow>
               if length (sacct_Errors sacctResp) > 0 then
                 (Inl (Error (hd (sacct_Errors sacctResp))),
                  s1\<lparr>slog := slog s1 @ map (slog_Error ''sacct API error response: %q'')
                                          (sacct_Errors sacctResp),
                     errorCounter := errorCounter s1 + length (sacct_Errors sacctResp)\<rparr>)
               else
                 (sum_loop 0 (map (\<lambda>job. parseGresGpuCount (ParseFloat env) (AllocGRES job))
                                  (Jobs sacctResp)),
                  s1)))"

definition GpuJsonFetcher_fetch :: "env \<Rightarrow> state \<Rightarrow> (go_error + GpuMetrics) \<times> state" where
  "GpuJsonFetcher_fetch env s =
     (case GpuJsonFetcher_fetchTotalGpus env s of
        (Inl err, s1) \<Rightarrow> (Inl err, s1)
      | (Inr totalGpus, s1) \<Rightarrow>
          (case GpuJsonFetcher_fetchAllocatedGpus env s1 of
             (Inl err, s2) \<Rightarrow> (Inl err, s2)
           | (Inr allocGpus, s2) \<Rightarrow>
               (let idleGpus = totalGpus - allocGpus;
                    utilization = (if totalGpus > 0 then allocGpus / totalGpus else 0)
                in (Inr \<lparr>Alloc = allocGpus, Idle = idleGpus, Total = totalGpus,
                         Utilization = utilization\<rparr>, s2))))"

text \<open>The part of \<^verbatim>\<open>FetchMetrics\<close> after the cache check: fetch, and store on success.\<close>

definition GpuJsonFetcher_refresh :: "env \<Rightarrow> state \<Rightarrow> (go_error + GpuMetrics) \<times> state" where
  "GpuJsonFetcher_refresh env s =
     (let (t, s1) = time_Now env s in
      case GpuJsonFetcher_fetch env s1 of
        (Inl err, s2) \<Rightarrow> (Inl err, s2)
      | (Inr metrics, s2) \<Rightarrow>
          (let (t1, s3) = time_Now env s2;
               (t2, s4) = time_Now env s3
           in (Inr metrics,
               s4\<lparr>cache := (cache s4)\<lparr>cache_duration := t1 - t,
                                       cache_cache := Some metrics,
                                       cache_t := t2\<rparr>\<rparr>)))"

text \<open>The clock is read for the cache check only when a snapshot is stored
  (\<^verbatim>\<open>&&\<close> evaluates its right operand only then).\<close>

definition GpuJsonFetcher_FetchMetrics :: "env \<Rightarrow> state \<Rightarrow> (go_error + GpuMetrics) \<times> state" where
  "GpuJsonFetcher_FetchMetrics env s =
     (case cache_cache (cache s) of
        None \<Rightarrow> GpuJsonFetcher_refresh env s
      | Some cached \<Rightarrow>
          (let (now, s0) = time_Now env s in
           if Seconds (now - cache_t (cache s)) < cache_limit (cache s) then (Inr cached, s0)
           else GpuJsonFetcher_refresh env s0))"

definition GpuJsonFetcher_ScrapeDuration :: "state \<Rightarrow> int" where
  "GpuJsonFetcher_ScrapeDuration s = last_duration (sinfoScraper s)"

section \<open>The CLI-fallback fetcher\<close>

fun sinfo_rows_loop :: "(string \<Rightarrow> float64 option) \<Rightarrow> float64 \<Rightarrow> string list list \<Rightarrow> go_error + float64" where
  "sinfo_rows_loop pf totalGpus [] = Inr totalGpus"
| "sinfo_rows_loop pf totalGpus (row # rows) =
     (if length row < 2 then sinfo_rows_loop pf totalGpus rows
      else
        (case index_at row 1 of
           Inl e \<Rightarrow> Inl e
         | Inr field \<Rightarrow>
             (case parseGresGpuCount pf (TrimSpace field) of
                Inl e \<Rightarrow> Inl e
              | Inr gpuCount \<Rightarrow> sinfo_rows_loop pf (totalGpus + gpuCount) rows)))"

fun sacct_lines_loop :: "(string \<Rightarrow> float64 option) \<Rightarrow> float64 \<Rightarrow> string list \<Rightarrow> go_error + float64" where
  "sacct_lines_loop pf allocGpus [] = Inr allocGpus"
| "sacct_lines_loop pf allocGpus (l # ls) =
     (let line = TrimSpace l in
      if length line = 0 then sacct_lines_loop pf allocGpus ls
      else
        (case parseGresGpuCount pf (Trim line [CHR 0x22]) of
           Inl e \<Rightarrow> Inl e
         | Inr gpuCount \<Rightarrow> sacct_lines_loop pf (allocGpus + gpuCount) ls))"

definition GpuCliFallbackFetcher_fetchTotalGpus :: "env \<Rightarrow> state \<Rightarrow> (go_error + float64) \<times> state" where
  "GpuCliFallbackFetcher_fetchTotalGpus env s =
     (case sinfo_FetchRawBytes env s of
        (Inl err, s1) \<Rightarrow> (Inl err, s1)
      | (Inr out, s1) \<Rightarrow>
          (let sinfoOutput = TrimSpace out in
           if length sinfoOutput = 0 then (Inr 0, s1)
           else
             (case csv_ReadAll env sinfoOutput of
                Inl err \<Rightarrow>
                  (Inl err,
                   s1\<lparr>slog := slog s1 @ [slog_Error ''Failed to parse sinfo GPU output: %q'' (err_msg err)],
                      errorCounter := errorCounter s1 + 1\<rparr>)
              | Inr records \<Rightarrow> (sinfo_rows_loop (ParseFloat env) 0 records, s1))))"

definition GpuCliFallbackFetcher_fetchAllocatedGpus :: "env \<Rightarrow> state \<Rightarrow> (go_error + float64) \<times> state" where
  "GpuCliFallbackFetcher_fetchAllocatedGpus env s =
     (case sacct_FetchRawBytes env s of
        (Inl err, s1) \<Rightarrow> (Inl err, s1)
      | (Inr out, s1) \<Rightarrow>
          (let sacctOutput = TrimSpace out in
           if length sacctOutput = 0 then (Inr 0, s1)
           else (sacct_lines_loop (ParseFloat env) 0 (Split sacctOutput CHR 0x0A), s1)))"

definition GpuCliFallbackFetcher_fetch :: "env \<Rightarrow> state \<Rightarrow> (go_error + GpuMetrics) \<times> state" where
  "GpuCliFallbackFetcher_fetch env s =
     (case GpuCliFallbackFetcher_fetchTotalGpus env s of
        (Inl err, s1) \<Rightarrow> (Inl err, s1)
      | (Inr totalGpus, s1) \<Rightarrow>
          (case GpuCliFallbackFetcher_fetchAllocatedGpus env s1 of
             (Inl err, s2) \<Rightarrow> (Inl err, s2)
           | (Inr allocGpus, s2) \<Rightarrow>
               (let idleGpus = totalGpus - allocGpus;
                    utilization = (if totalGpus > 0 then allocGpus / totalGpus else 0)
                in (Inr \<lparr>Alloc = allocGpus, Idle = idleGpus, Total = totalGpus,
                         Utilization = utilization\<rparr>, s2))))"

definition GpuCliFallbackFetcher_refresh :: "env \<Rightarrow> state \<Rightarrow> (go_error + GpuMetrics) \<times> state" where
  "GpuCliFallbackFetcher_refresh env s =
     (let (t, s1) = time_Now env s in
      case GpuCliFallbackFetcher_fetch env s1 of
        (Inl err, s2) \<Rightarrow> (Inl err, s2)
      | (Inr metrics, s2) \<Rightarrow>
          (let (t1, s3) = time_Now env s2;
               (t2, s4) = time_Now env s3
           in (Inr metrics,
               s4\<lparr>cache := (cache s4)\<lparr>cache_duration := t1 - t,
                                       cache_cache := Some metrics,
                                       cache_t := t2\<rparr>\<rparr>)))"

definition GpuCliFallbackFetcher_FetchMetrics :: "env \<Rightarrow> state \<Rightarrow> (go_error + GpuMetrics) \<times> state" where
  "GpuCliFallbackFetcher_FetchMetrics env s =
     (case cache_cache (cache s) of
        None \<Rightarrow> GpuCliFallbackFetcher_refresh env s
      | Some cached \<Rightarrow>
          (let (now, s0) = time_Now env s in
           if Seconds (now - cache_t (cache s)) < cache_limit (cache s) then (Inr cached, s0)
           else GpuCliFallbackFetcher_refresh env s0))"

definition GpuCliFallbackFetcher_ScrapeDuration :: "state \<Rightarrow> int" where
  "GpuCliFallbackFetcher_ScrapeDuration s = last_duration (sinfoScraper s)"

section \<open>The collector\<close>

text \<open>
  \<^verbatim>\<open>GpuCollector.Collect\<close>, for a collector whose fetcher has the given \<open>FetchMetrics\<close>;
  the result lists the gauges sent on the channel. A failure is logged and nothing is
  sent. (The test for a nil snapshot is left out: both fetchers return a snapshot
  whenever they return no error.)
\<close>

definition GpuCollector_Collect ::
  "(env \<Rightarrow> state \<Rightarrow> (go_error + GpuMetrics) \<times> state) \<Rightarrow> env \<Rightarrow> state
     \<Rightarrow> (string \<times> float64) list \<times> state" where
  "GpuCollector_Collect fetcher_FetchMetrics env s =
     (case fetcher_FetchMetrics env s of
        (Inl err, s1) \<Rightarrow>
          ([], s1\<lparr>slog := slog s1 @ [slog_Error ''Failed to fetch GPU metrics: %q'' (err_msg err)]\<rparr>)
      | (Inr metrics, s1) \<Rightarrow>
          ([(''slurm_gpus_alloc'', Alloc metrics), (''slurm_gpus_idle'', Idle metrics),
            (''slurm_gpus_total'', Total metrics), (''slurm_gpus_utilization'', Utilization metrics)],
           s1))"

section \<open>Construction, and a test double\<close>

text \<open>The fetcher \<^verbatim>\<open>NewGpuCollector\<close> builds: an empty cache with the configured limit,
  fresh scrapers, a counter at zero.\<close>

definition NewGpuFetcher :: "float64 \<Rightarrow> state" where
  "NewGpuFetcher PollLimit =
     \<lparr>sinfoScraper = \<lparr>calls = 0, last_duration = 0\<rparr>,
      sacctScraper = \<lparr>calls = 0, last_duration = 0\<rparr>,
      errorCounter = 0,
      cache = \<lparr>cache_t = 0, cache_limit = PollLimit, cache_cache = None, cache_duration = 0\<rparr>,
      slog = [], ticks = 0, scrapes = []\<rparr>"

text \<open>
  An environment for evaluating the fetchers: the clock advances one second per
  reading; the commands answer with fixed text, sinfo after 3 ns and sacct after 7 ns;
  the JSON decoders are given by their value on that text; the CSV reader splits lines
  and fields, which is what the library reader does on text without quotes whose rows
  have equally many fields.
\<close>

definition mock_env :: env where
  "mock_env =
     \<lparr>clock = (\<lambda>k. int k * 1000000000),
      sinfo_run = (\<lambda>k. (Inr ''n1|gpu:4\<newline>n2|gpu:a100:4(IDX:0-3)'', 3)),
      sacct_run = (\<lambda>k. (Inr ''gpu:2\<newline>gpu:1'', 7)),
      json_sinfo = (\<lambda>b. Inr \<lparr>sinfo_Errors = [],
                             Nodes = [\<lparr>Gres = ''gpu:4''\<rparr>, \<lparr>Gres = ''gpu:a100:4(IDX:0-3)''\<rparr>]\<rparr>),
      json_sacct = (\<lambda>b. Inr \<lparr>sacct_Errors = [],
                             Jobs = [\<lparr>AllocGRES = ''gpu:2''\<rparr>, \<lparr>AllocGRES = ''gpu:1''\<rparr>]\<rparr>),
      csv_ReadAll = (\<lambda>b. Inr (map (\<lambda>l. Split l CHR ''|'') (Split b CHR 0x0A))),
      ParseFloat = ParseFloat_dec\<rparr>"

text \<open>The same environment with the sinfo command failing, and a fetcher whose cached
  snapshot has gone stale: one successful fetch, then the clock read until its
  twentieth reading, twenty seconds in, with a limit of ten.\<close>

definition mock_env_down :: env where
  "mock_env_down = mock_env\<lparr>sinfo_run := (\<lambda>k. (Inl (Error ''exit status 1''), 5))\<rparr>"

definition stale_state :: state where
  "stale_state = (snd (GpuJsonFetcher_FetchMetrics mock_env (NewGpuFetcher 10)))\<lparr>ticks := 20\<rparr>"

section \<open>Notions the statements use\<close>

text \<open>The cache check of \<^verbatim>\<open>FetchMetrics\<close> in state \<open>s\<close>: a snapshot is stored and the
  time since it was stored, in seconds, is below the limit.\<close>

definition cache_hit :: "env \<Rightarrow> state \<Rightarrow> bool" where
  "cache_hit env s =
     (case cache_cache (cache s) of
        None \<Rightarrow> False
      | Some cached \<Rightarrow> Seconds (clock env (ticks s) - cache_t (cache s)) < cache_limit (cache s))"

text \<open>The state in which the fetch of a call that misses the cache starts: the clock
  has been read for the cache check (when a snapshot was stored) and for the start time.\<close>

definition fetch_start :: "state \<Rightarrow> state" where
  "fetch_start s =
     s\<lparr>ticks := (case cache_cache (cache s) of None \<Rightarrow> Suc (ticks s) | Some cached \<Rightarrow> Suc (Suc (ticks s)))\<rparr>"

text \<open>What a stage of a fetch does to the state: the sinfo stage invokes the sinfo
  scraper once, the sacct stage the sacct scraper once, and neither touches anything
  else but the log and the error counter; a stage is quiet when it leaves those as
  they were.\<close>

definition after_sinfo :: "env \<Rightarrow> state \<Rightarrow> state \<Rightarrow> bool" where
  "after_sinfo env s s1 \<longleftrightarrow>
     cache s1 = cache s \<and> ticks s1 = ticks s \<and> sacctScraper s1 = sacctScraper s
     \<and> sinfoScraper s1 = \<lparr>calls = Suc (calls (sinfoScraper s)),
                            last_duration = snd (sinfo_run env (calls (sinfoScraper s)))\<rparr>
     \<and> scrapes s1 = (Sinfo, snd (sinfo_run env (calls (sinfoScraper s)))) # scrapes s"

definition after_sacct :: "env \<Rightarrow> state \<Rightarrow> state \<Rightarrow> bool" where
  "after_sacct env s s1 \<longleftrightarrow>
     cache s1 = cache s \<and> ticks s1 = ticks s \<and> sinfoScraper s1 = sinfoScraper s
     \<and> sacctScraper s1 = \<lparr>calls = Suc (calls (sacctScraper s)),
                            last_duration = snd (sacct_run env (calls (sacctScraper s)))\<rparr>
     \<and> scrapes s1 = (Sacct, snd (sacct_run env (calls (sacctScraper s)))) # scrapes s"

definition quiet :: "state \<Rightarrow> state \<Rightarrow> bool" where
  "quiet s s1 \<longleftrightarrow> slog s1 = slog s \<and> errorCounter s1 = errorCounter s"

text \<open>An outcome of a call started in state \<open>s\<close>: it failed with the error \<open>e\<close>, wrote
  the entries \<open>logged\<close> to the log and added \<open>counted\<close> to the error counter.\<close>

definition fails_with ::
  "(go_error + GpuMetrics) \<times> state \<Rightarrow> state \<Rightarrow> go_error \<Rightarrow> log_entry list \<Rightarrow> nat \<Rightarrow> bool" where
  "fails_with out s e logged counted \<longleftrightarrow>
     fst out = Inl e \<and> slog (snd out) = slog s @ logged
     \<and> errorCounter (snd out) = errorCounter s + counted"

text \<open>The TRES form as the specification words it: the value of a \<open>key=value\<close> pair whose
  key begins with \<^verbatim>\<open>gres/gpu\<close>, and the first pair of a list that has one.\<close>

definition tres_gpu_value :: "(string \<Rightarrow> float64 option) \<Rightarrow> string \<Rightarrow> float64 option" where
  "tres_gpu_value pf pair =
     (if HasPrefix pair ''gres/gpu'' \<and> CHR ''='' \<in> set pair
      then (let v = tl (dropWhile (\<lambda>c. c \<noteq> CHR ''='') pair) in if v = [] then None else pf v)
      else None)"

text \<open>The quantity in a result of the parser.\<close>

fun gpu_count_of :: "go_error + float64 \<Rightarrow> float64" where
  "gpu_count_of (Inr v) = v"
| "gpu_count_of (Inl e) = 0"

text \<open>The terms of a legacy list have exact counts: every term parses to a natural
  number and the total is at most \<open>2 ^ 53\<close>, so that the additions of the code are
  exact in whatever order they are made.\<close>

definition exact_counts :: "(string \<Rightarrow> float64 option) \<Rightarrow> string \<Rightarrow> bool" where
  "exact_counts pf s \<longleftrightarrow>
     (\<forall>part \<in> set (Split s CHR '',''). gpu_count_of (parseGresGpuCount pf (TrimSpace part)) \<in> \<nat>)
     \<and> sum_list (map (\<lambda>part. gpu_count_of (parseGresGpuCount pf (TrimSpace part)))
                      (Split s CHR '','')) \<le> 2 ^ 53"

fun first_match :: "('a \<Rightarrow> 'b option) \<Rightarrow> 'a list \<Rightarrow> 'b option" where
  "first_match f [] = None"
| "first_match f (x # xs) = (case f x of Some v \<Rightarrow> Some v | None \<Rightarrow> first_match f xs)"

section \<open>Facts about the string functions\<close>

lemma set_TrimLeftSpace: "set (TrimLeftSpace s) \<subseteq> set s"
  by (induction s rule: TrimLeftSpace.induct) (auto split: if_splits)

lemma set_TrimRightSpace_rev: "set (TrimRightSpace_rev s) \<subseteq> set s"
  by (induction s rule: TrimRightSpace_rev.induct) (auto split: if_splits)

lemma set_TrimSpace: "set (TrimSpace s) \<subseteq> set s"
  using set_TrimLeftSpace [of s] set_TrimRightSpace_rev [of "rev (TrimLeftSpace s)"]
  by (auto simp: TrimSpace_def)

lemma Index_single:
  "Index s [c] = (if c \<in> set s then int (length (takeWhile (\<lambda>x. x \<noteq> c) s)) else - 1)"
  by (induction s) (auto simp: Let_def)

lemma Index_ge: "- 1 \<le> Index s sub"
  by (induction s) (auto simp: Let_def)

lemma Contains_single: "Contains s [c] \<longleftrightarrow> c \<in> set s"
  by (simp add: Contains_def Index_single)

lemma Split_subset: "x \<in> set (Split s sep) \<Longrightarrow> set x \<subseteq> set s"
  by (induction s arbitrary: x) (fastforce split: if_splits list.splits)+

lemma Split_nonempty: "Split s sep \<noteq> []"
  by (cases s) (auto split: list.splits)

lemma Split_length: "length (Split s sep) = Suc (length (filter (\<lambda>c. c = sep) s))"
  by (induction s) (auto split: list.splits)

lemma Split_no_sep: "sep \<notin> set s \<Longrightarrow> Split s sep = [s]"
  by (induction s) auto

section \<open>The parser returns, and what it returns\<close>

lemma tres_total: "\<exists>r. parseGresGpuCount_tres pf ps = Inr r"
proof (induction ps)
  case Nil
  show ?case by simp
next
  case (Cons p ps)
  have "slice_from s (i + 1) = Inr (drop (nat (i + 1)) s)"
    if "- 1 \<le> i" "i < int (length s) - 1" for s i
    using that by (simp add: slice_from_def)
  with Cons show ?case
    using Index_ge [of "TrimSpace p" "''=''"]
    by (auto simp: Let_def split: option.splits sum.splits)
qed

lemma sum_loop_Inr: "sum_loop tot (map Inr vs) = Inr (tot + sum_list vs)"
  by (induction vs arbitrary: tot) (auto simp: add.assoc)

lemma sum_loop_total:
  "\<forall>x \<in> set rs. \<exists>v. x = Inr v \<Longrightarrow> \<exists>r. sum_loop tot rs = Inr r"
proof (induction rs arbitrary: tot)
  case Nil
  show ?case by simp
next
  case (Cons a rs)
  then obtain v where "a = Inr v" by auto
  with Cons show ?case by simp
qed

text \<open>A single legacy token: the slices of the source are in range, so the text before
  the first parenthesis is kept and the last colon-separated field is parsed.\<close>

lemma parse_single:
  assumes "\<not> (gres = [] \<or> gres = ''N/A'' \<or> gres = ''(null)'')"
    and "\<not> Contains gres ''=''" and "\<not> Contains gres '',''"
  shows "parseGresGpuCount pf gres =
     (let gres1 = takeWhile (\<lambda>x. x \<noteq> CHR ''('') gres in
      if \<not> Contains (ToLower gres1) ''gpu'' then Inr 0
      else (let parts = Split gres1 CHR '':'' in
            if length parts < 2 then Inr 0
            else (case pf (last parts) of None \<Rightarrow> Inr 0 | Some cnt \<Rightarrow> Inr cnt)))"
proof -
  have a: "(let idx = Index gres ''('' in if idx \<noteq> - 1 then slice_to gres idx else Inr gres)
        = Inr (takeWhile (\<lambda>x. x \<noteq> CHR ''('') gres)"
  proof (cases "CHR ''('' \<in> set gres")
    case True
    then show ?thesis
      using takeWhile_eq_take [of "\<lambda>x. x \<noteq> CHR ''(''" gres]
      by (simp add: Index_single slice_to_def Let_def length_takeWhile_le)
  next
    case False
    then have tw: "takeWhile (\<lambda>x. x \<noteq> CHR ''('') gres = gres"
      by (auto simp: takeWhile_eq_all_conv)
    from False show ?thesis by (simp add: Index_single Let_def tw)
  qed
  have b: "index_at parts (int (length parts) - 1) = Inr (last parts)" if "\<not> length parts < 2"
    for parts :: "string list"
    using that by (cases parts rule: rev_cases) (auto simp: index_at_def nth_append)
  have "parseGresGpuCount pf gres =
     (if \<not> Contains (ToLower (takeWhile (\<lambda>x. x \<noteq> CHR ''('') gres)) ''gpu'' then Inr 0
      else (let parts = Split (takeWhile (\<lambda>x. x \<noteq> CHR ''('') gres) CHR '':'' in
            if length parts < 2 then Inr 0
            else (case index_at parts (int (length parts) - 1) of
                    Inl e \<Rightarrow> Inl e
                  | Inr countStr \<Rightarrow> (case pf countStr of None \<Rightarrow> Inr 0 | Some cnt \<Rightarrow> Inr cnt))))"
    by (subst parseGresGpuCount.simps) (simp only: assms if_False a sum.case)
  then show ?thesis
    by (auto simp: Let_def b)
qed

lemma parse_total: "\<exists>r. parseGresGpuCount pf gres = Inr r"
proof (induction pf gres rule: parseGresGpuCount.induct)
  case (1 pf gres)
  show ?case
  proof (cases "gres = [] \<or> gres = ''N/A'' \<or> gres = ''(null)''")
    case True
    then show ?thesis by (subst parseGresGpuCount.simps) simp
  next
    case notsent: False
    show ?thesis
    proof (cases "Contains gres ''=''")
      case True
      with notsent show ?thesis
        using tres_total [of pf "Split gres CHR '',''"]
        by (subst parseGresGpuCount.simps) simp
    next
      case noeq: False
      show ?thesis
      proof (cases "Contains gres '',''")
        case True
        from "1.IH" [OF notsent noeq True]
        have "\<forall>x \<in> set (map (\<lambda>part. parseGresGpuCount pf (TrimSpace part)) (Split gres CHR '','')). \<exists>v. x = Inr v"
          by auto
        from sum_loop_total [OF this, of 0] notsent noeq True show ?thesis
          by (subst parseGresGpuCount.simps) simp
      next
        case False
        show ?thesis
          by (simp add: parse_single [OF notsent noeq False] Let_def split: option.splits)
      qed
    qed
  qed
qed

lemma parse_sentinels:
  "parseGresGpuCount pf [] = Inr 0"
  "parseGresGpuCount pf ''N/A'' = Inr 0"
  "parseGresGpuCount pf ''(null)'' = Inr 0"
  by (simp_all add: parseGresGpuCount.simps)

section \<open>The TRES form\<close>

lemma drop_after_first:
  "c \<in> set s \<Longrightarrow> drop (Suc (length (takeWhile (\<lambda>x. x \<noteq> c) s))) s = tl (dropWhile (\<lambda>x. x \<noteq> c) s)"
  by (induction s) auto

lemma takeWhile_before: "c \<in> set s \<Longrightarrow> length (takeWhile (\<lambda>x. x \<noteq> c) s) < length s"
  by (induction s) auto

lemma tl_dropWhile_empty:
  "c \<in> set s \<Longrightarrow> tl (dropWhile (\<lambda>x. x \<noteq> c) s) = [] \<longleftrightarrow> Suc (length (takeWhile (\<lambda>x. x \<noteq> c) s)) = length s"
  by (induction s) auto

lemma tres_first_match:
  "parseGresGpuCount_tres pf ps =
     Inr (case first_match (tres_gpu_value pf) (map TrimSpace ps) of Some v \<Rightarrow> v | None \<Rightarrow> 0)"
proof (induction ps)
  case Nil
  show ?case by simp
next
  case (Cons p ps)
  let ?part = "TrimSpace p"
  let ?n = "length (takeWhile (\<lambda>x. x \<noteq> CHR ''='') ?part)"
  show ?case
  proof (cases "HasPrefix ?part ''gres/gpu'' \<and> CHR ''='' \<in> set ?part")
    case False
    then show ?thesis
      using Cons by (auto simp: Let_def tres_gpu_value_def Index_single)
  next
    case True
    then have mem: "CHR ''='' \<in> set ?part" and pre: "HasPrefix ?part ''gres/gpu''" by simp_all
    have idx: "Index ?part ''='' = int ?n" using mem by (simp add: Index_single)
    have lt: "?n < length ?part" using mem by (rule takeWhile_before)
    show ?thesis
    proof (cases "Suc ?n = length ?part")
      case last: True
      then have "tl (dropWhile (\<lambda>x. x \<noteq> CHR ''='') ?part) = []"
        using tl_dropWhile_empty [OF mem] by simp
      with last pre mem idx Cons show ?thesis
        by (simp add: Let_def tres_gpu_value_def)
    next
      case more: False
      then have ne: "tl (dropWhile (\<lambda>x. x \<noteq> CHR ''='') ?part) \<noteq> []"
        using tl_dropWhile_empty [OF mem] by simp
      from more lt have rng: "int ?n < int (length ?part) - 1" by linarith
      have sl: "slice_from ?part (int ?n + 1) = Inr (tl (dropWhile (\<lambda>x. x \<noteq> CHR ''='') ?part))"
        using lt drop_after_first [OF mem] by (simp add: slice_from_def nat_add_distrib)
      from pre mem idx rng sl ne Cons show ?thesis
        by (simp add: Let_def tres_gpu_value_def split: option.splits)
    qed
  qed
qed

lemma parse_tres:
  assumes "Contains gres ''=''"
  shows "parseGresGpuCount pf gres =
     Inr (case first_match (tres_gpu_value pf) (map TrimSpace (Split gres CHR '','')) of
            Some v \<Rightarrow> v | None \<Rightarrow> 0)"
proof -
  from assms have "CHR ''='' \<in> set gres" by (simp add: Contains_single)
  then have "\<not> (gres = [] \<or> gres = ''N/A'' \<or> gres = ''(null)'')" by auto
  with assms show ?thesis
    by (subst parseGresGpuCount.simps) (simp add: tres_first_match)
qed

lemma first_match_none: "\<forall>x \<in> set xs. f x = None \<Longrightarrow> first_match f xs = None"
  by (induction xs) auto

text \<open>
  Claim C5. An input that contains \<open>=\<close> is read as a comma-separated list of
  \<open>key=value\<close> pairs: the result is the parsed value of the first pair whose key
  begins with \<^verbatim>\<open>gres/gpu\<close> (a typed key such as \<^verbatim>\<open>gres/gpu:tesla\<close> included) and
  whose value parses, and 0 when there is none; pairs with other keys play no part.
  In particular \<open>cpu=4,mem=1024M,gres/gpu=2\<close> yields 2 and \<open>cpu=8\<close> yields 0.
\<close>

theorem parseGresGpuCount_tres_C5:
  "(Contains gres ''='' \<longrightarrow>
      parseGresGpuCount pf gres =
        Inr (case first_match (tres_gpu_value pf) (map TrimSpace (Split gres CHR '','')) of
               Some v \<Rightarrow> v | None \<Rightarrow> 0))
   \<and> (Contains gres ''='' \<and> (\<forall>p \<in> set (Split gres CHR '',''). \<not> HasPrefix (TrimSpace p) ''gres/gpu'') \<longrightarrow>
      parseGresGpuCount pf gres = Inr 0)
   \<and> parseGresGpuCount ParseFloat_dec ''cpu=4,mem=1024M,gres/gpu=2'' = Inr 2
   \<and> parseGresGpuCount ParseFloat_dec ''cpu=8'' = Inr 0"
proof (intro conjI impI)
  assume "Contains gres ''=''"
  then show "parseGresGpuCount pf gres =
        Inr (case first_match (tres_gpu_value pf) (map TrimSpace (Split gres CHR '','')) of
               Some v \<Rightarrow> v | None \<Rightarrow> 0)"
    by (rule parse_tres)
next
  assume a: "Contains gres ''='' \<and> (\<forall>p \<in> set (Split gres CHR '',''). \<not> HasPrefix (TrimSpace p) ''gres/gpu'')"
  then have "first_match (tres_gpu_value pf) (map TrimSpace (Split gres CHR '','')) = None"
    by (intro first_match_none) (simp add: tres_gpu_value_def)
  with a show "parseGresGpuCount pf gres = Inr 0" by (simp add: parse_tres)
next
  show "parseGresGpuCount ParseFloat_dec ''cpu=4,mem=1024M,gres/gpu=2'' = Inr 2" by code_simp
next
  show "parseGresGpuCount ParseFloat_dec ''cpu=8'' = Inr 0" by code_simp
qed

theorem parseGresGpuCount_tres_C5_witness:
  "Contains ''billing=8,cpu=8,gres/gpu=4,mem=32G,node=1'' ''=''
   \<and> first_match (tres_gpu_value ParseFloat_dec)
        (map TrimSpace (Split ''billing=8,cpu=8,gres/gpu=4,mem=32G,node=1'' CHR '','')) = Some 4
   \<and> parseGresGpuCount ParseFloat_dec ''billing=8,cpu=8,gres/gpu=4,mem=32G,node=1'' = Inr 4"
proof -
  have c: "Contains ''billing=8,cpu=8,gres/gpu=4,mem=32G,node=1'' ''=''" by code_simp
  have f: "first_match (tres_gpu_value ParseFloat_dec)
        (map TrimSpace (Split ''billing=8,cpu=8,gres/gpu=4,mem=32G,node=1'' CHR '','')) = Some 4"
    by code_simp
  from parseGresGpuCount_tres_C5 [of "''billing=8,cpu=8,gres/gpu=4,mem=32G,node=1''" ParseFloat_dec] c f
  show ?thesis by simp
qed

section \<open>Tokens that do not parse, and the sign of the result\<close>





section \<open>The legacy form: order of the terms, letter case\<close>

lemma sum_loop_values:
  "\<forall>x \<in> set xs. \<exists>v. f x = Inr v \<Longrightarrow>
   sum_loop tot (map f xs) = Inr (tot + sum_list (map (\<lambda>x. gpu_count_of (f x)) xs))"
proof (induction xs arbitrary: tot)
  case Nil
  show ?case by simp
next
  case (Cons x xs)
  then obtain v where "f x = Inr v" by auto
  with Cons show ?case by (simp add: add.assoc)
qed

lemma parse_legacy_sum:
  assumes "\<not> Contains gres ''=''" and "Contains gres '',''"
  shows "parseGresGpuCount pf gres =
     Inr (sum_list (map (\<lambda>part. gpu_count_of (parseGresGpuCount pf (TrimSpace part)))
                        (Split gres CHR '','')))"
proof -
  from assms(2) have "CHR '','' \<in> set gres" by (simp add: Contains_single)
  then have "\<not> (gres = [] \<or> gres = ''N/A'' \<or> gres = ''(null)'')" by auto
  with assms have "parseGresGpuCount pf gres =
      sum_loop 0 (map (\<lambda>part. parseGresGpuCount pf (TrimSpace part)) (Split gres CHR '',''))"
    by (subst parseGresGpuCount.simps) simp
  also have "\<dots> = Inr (0 + sum_list (map (\<lambda>part. gpu_count_of (parseGresGpuCount pf (TrimSpace part)))
                        (Split gres CHR '','')))"
    by (rule sum_loop_values) (simp add: parse_total)
  finally show ?thesis by simp
qed

lemma parse_permuted:
  assumes "\<not> Contains s ''=''" and "\<not> Contains s' ''=''"
    and "mset (Split s CHR '','') = mset (Split s' CHR '','')"
  shows "parseGresGpuCount pf s = parseGresGpuCount pf s'"
proof (cases "Contains s '',''")
  case True
  from assms(3) have "length (Split s CHR '','') = length (Split s' CHR '','')"
    by (metis size_mset)
  then have n: "length (filter (\<lambda>c. c = CHR '','') s) = length (filter (\<lambda>c. c = CHR '','') s')"
    by (simp add: Split_length)
  from True have "filter (\<lambda>c. c = CHR '','') s \<noteq> []"
    by (auto simp: Contains_single filter_empty_conv)
  with n have "filter (\<lambda>c. c = CHR '','') s' \<noteq> []" by auto
  then have c': "Contains s' '',''"
    by (auto simp: Contains_single filter_empty_conv)
  let ?f = "\<lambda>part. gpu_count_of (parseGresGpuCount pf (TrimSpace part))"
  have "sum_list (map ?f (Split s CHR '','')) = sum_mset (image_mset ?f (mset (Split s CHR '','')))"
    by (simp add: sum_mset_sum_list [symmetric])
  also have "\<dots> = sum_list (map ?f (Split s' CHR '',''))"
    by (simp add: assms(3) sum_mset_sum_list [symmetric])
  finally show ?thesis
    by (simp add: parse_legacy_sum [OF assms(1) True] parse_legacy_sum [OF assms(2) c'])
next
  case False
  then have one: "Split s CHR '','' = [s]" by (simp add: Contains_single Split_no_sep)
  with assms(3) have "length (Split s' CHR '','') = 1" by (metis length_Cons list.size(3) size_mset One_nat_def)
  then have "CHR '','' \<notin> set s'" by (auto simp: Split_length filter_empty_conv)
  then have "Split s' CHR '','' = [s']" by (rule Split_no_sep)
  with one assms(3) show ?thesis by simp
qed

text \<open>Lower-casing goes through the string functions of the parser: it leaves white
  space, the separators and the parentheses as they are.\<close>

lemma lower_letter:
  "lower c \<noteq> c \<Longrightarrow> 97 \<le> (of_char (lower c) :: nat) \<and> (of_char (lower c) :: nat) \<le> 122"
  by (auto simp: lower_def Let_def)

lemma lower_idem: "lower (lower c) = lower c"
  by (auto simp: lower_def Let_def)

lemma lower_fixed:
  assumes "\<not> (65 \<le> (of_char b :: nat) \<and> (of_char b :: nat) \<le> 90)"
    and "\<not> (97 \<le> (of_char b :: nat) \<and> (of_char b :: nat) \<le> 122)"
  shows "lower c = b \<longleftrightarrow> c = b"
  using assms by (auto simp: lower_def Let_def)

lemma isSpace_lower: "isSpace (lower c) = isSpace c"
  by (simp add: isSpace_def lower_fixed)

lemma isSpace2_lower: "isSpace2 (lower a) (lower b) = isSpace2 a b"
  by (simp add: isSpace2_def lower_fixed)

lemma lower_high: "128 \<le> (of_char (lower c) :: nat) \<longleftrightarrow> 128 \<le> (of_char c :: nat)"
  by (auto simp: lower_def Let_def)

lemma lower_high_le: "128 \<le> (of_char c :: nat) \<Longrightarrow> lower c = c"
  by (auto simp: lower_def Let_def)

lemma isSpace3_lower: "isSpace3 (lower a) (lower b) (lower c) = isSpace3 a b c"
proof (cases "128 \<le> (of_char c :: nat)")
  case True
  then show ?thesis by (simp add: isSpace3_def lower_fixed lower_high_le)
next
  case False
  then have "\<not> 128 \<le> (of_char (lower c) :: nat)" by (simp add: lower_high)
  with False show ?thesis by (auto simp add: isSpace3_def lower_fixed)
qed

lemma TrimLeftSpace_lower: "TrimLeftSpace (map lower s) = map lower (TrimLeftSpace s)"
  by (induction s rule: TrimLeftSpace.induct)
     (simp_all add: isSpace_lower isSpace2_lower isSpace3_lower)

lemma TrimRightSpace_rev_lower: "TrimRightSpace_rev (map lower s) = map lower (TrimRightSpace_rev s)"
  by (induction s rule: TrimRightSpace_rev.induct)
     (simp_all add: isSpace_lower isSpace2_lower isSpace3_lower)

lemma TrimSpace_lower: "TrimSpace (ToLower s) = ToLower (TrimSpace s)"
  by (simp add: TrimSpace_def ToLower_def TrimLeftSpace_lower rev_map TrimRightSpace_rev_lower
        del: map_map)

lemma Split_lower:
  assumes "\<And>c. lower c = sep \<longleftrightarrow> c = sep"
  shows "Split (ToLower s) sep = map ToLower (Split s sep)"
  unfolding ToLower_def
  by (induction s) (auto simp: assms split: list.splits)

lemma takeWhile_lower:
  assumes "\<And>c. lower c = b \<longleftrightarrow> c = b"
  shows "takeWhile (\<lambda>x. x \<noteq> b) (ToLower s) = ToLower (takeWhile (\<lambda>x. x \<noteq> b) s)"
  unfolding ToLower_def by (induction s) (auto simp: assms)

lemma mem_lower:
  assumes "\<And>c. lower c = b \<longleftrightarrow> c = b"
  shows "b \<in> set (ToLower s) \<longleftrightarrow> b \<in> set s"
proof -
  have "lower c = b \<longleftrightarrow> c = b" for c by (rule assms)
  then have "b \<in> lower ` set s \<longleftrightarrow> b \<in> set s" by (metis image_iff)
  then show ?thesis by (simp add: ToLower_def)
qed


lemma lower_marks:
  "lower c = CHR ''='' \<longleftrightarrow> c = CHR ''=''"
  "lower c = CHR '','' \<longleftrightarrow> c = CHR '',''"
  "lower c = CHR ''('' \<longleftrightarrow> c = CHR ''(''"
  "lower c = CHR '':'' \<longleftrightarrow> c = CHR '':''"
  by (simp_all add: lower_fixed)

lemma ToLower_idem: "ToLower (ToLower s) = ToLower s"
  by (simp add: ToLower_def lower_idem)

lemma Contains_lower:
  "Contains (ToLower s) ''='' \<longleftrightarrow> Contains s ''=''"
  "Contains (ToLower s) '','' \<longleftrightarrow> Contains s '',''"
  by (simp_all add: Contains_single mem_lower lower_marks)

lemma ToLower_not_capital: "ToLower s \<noteq> ''N/A''"
proof
  assume "ToLower s = ''N/A''"
  then obtain c where c: "lower c = CHR ''N''" by (auto simp: ToLower_def)
  have "lower CHR ''N'' \<noteq> CHR ''N''" by code_simp
  with c have "lower c \<noteq> c" by auto
  from lower_letter [OF this] c show False by simp
qed

text \<open>An input that is one of the texts \<open>N/A\<close> and \<open>(null)\<close> in some letter case has no
  GPU marker before its first parenthesis.\<close>

lemma parse_sentinel_case:
  assumes "ToLower g = ''n/a'' \<or> ToLower g = ''(null)''"
  shows "parseGresGpuCount pf g = Inr 0"
proof (cases "g = [] \<or> g = ''N/A'' \<or> g = ''(null)''")
  case True
  then show ?thesis using parse_sentinels [of pf] by auto
next
  case notsent: False
  from assms have "CHR ''='' \<notin> set (ToLower g)" and "CHR '','' \<notin> set (ToLower g)" by auto
  then have ne: "\<not> Contains g ''=''" and nc: "\<not> Contains g '',''"
    by (simp_all add: Contains_single mem_lower lower_marks)
  have "ToLower (takeWhile (\<lambda>x. x \<noteq> CHR ''('') g) = takeWhile (\<lambda>x. x \<noteq> CHR ''('') (ToLower g)"
    by (simp add: takeWhile_lower lower_marks)
  with assms have "ToLower (takeWhile (\<lambda>x. x \<noteq> CHR ''('') g) = ''n/a''
      \<or> ToLower (takeWhile (\<lambda>x. x \<noteq> CHR ''('') g) = []"
    by auto
  moreover have "\<not> Contains ''n/a'' ''gpu''" and "\<not> Contains [] ''gpu''" by code_simp+
  ultimately have "\<not> Contains (ToLower (takeWhile (\<lambda>x. x \<noteq> CHR ''('') g)) ''gpu''" by auto
  then show ?thesis by (simp add: parse_single [OF notsent ne nc] Let_def)
qed

text \<open>Lower-casing a legacy input does not change what it parses to, when the parser of
  numbers does not tell a text from its lower-cased form.\<close>

lemma parse_lower:
  assumes "\<forall>x. pf (ToLower x) = pf x" and "\<not> Contains s ''=''"
  shows "parseGresGpuCount pf (ToLower s) = parseGresGpuCount pf s"
  using assms
proof (induction pf s rule: parseGresGpuCount.induct)
  case (1 pf gres)
  note pfl = "1.prems"(1) and noeq = "1.prems"(2)
  show ?case
  proof (cases "gres = [] \<or> gres = ''N/A'' \<or> gres = ''(null)''")
    case True
    have "ToLower ''N/A'' = ''n/a''" and l: "ToLower ''(null)'' = ''(null)''" and "ToLower [] = []"
      by code_simp+
    with True have "ToLower gres = [] \<or> ToLower gres = ''n/a'' \<or> ToLower gres = ''(null)''"
      by auto
    then have "parseGresGpuCount pf (ToLower gres) = Inr 0"
      using parse_sentinel_case [of "ToLower gres" pf] parse_sentinels(1) [of pf]
      by (auto simp: ToLower_idem)
    moreover from True have "parseGresGpuCount pf gres = Inr 0"
      using parse_sentinels [of pf] by auto
    ultimately show ?thesis by simp
  next
    case notsent: False
    show ?thesis
    proof (cases "ToLower gres = [] \<or> ToLower gres = ''N/A'' \<or> ToLower gres = ''(null)''")
      case True
      with notsent have n: "ToLower gres = ''(null)''"
        using ToLower_not_capital [of gres] by (auto simp: ToLower_def)
      then have "parseGresGpuCount pf gres = Inr 0" by (simp add: parse_sentinel_case)
      moreover from n have "parseGresGpuCount pf (ToLower gres) = Inr 0"
        by (simp add: parse_sentinels)
      ultimately show ?thesis by simp
    next
      case notsent': False
      from noeq have noeq': "\<not> Contains (ToLower gres) ''=''" by (simp add: Contains_lower)
      show ?thesis
      proof (cases "Contains gres '',''")
        case True
        then have c': "Contains (ToLower gres) '',''" by (simp add: Contains_lower)
        have each: "parseGresGpuCount pf (TrimSpace (ToLower part)) = parseGresGpuCount pf (TrimSpace part)"
          if "part \<in> set (Split gres CHR '','')" for part
        proof -
          from that have "set (TrimSpace part) \<subseteq> set gres"
            using Split_subset [of part gres "CHR '',''"] set_TrimSpace [of part] by blast
          with noeq have "\<not> Contains (TrimSpace part) ''=''" by (auto simp: Contains_single)
          from "1.IH" [OF notsent noeq True that pfl this] show ?thesis
            by (simp add: TrimSpace_lower)
        qed
        have "parseGresGpuCount pf (ToLower gres) =
            sum_loop 0 (map (\<lambda>part. parseGresGpuCount pf (TrimSpace part)) (Split (ToLower gres) CHR '',''))"
          using notsent' noeq' c' by (subst parseGresGpuCount.simps) simp
        also have "\<dots> = sum_loop 0 (map (\<lambda>part. parseGresGpuCount pf (TrimSpace (ToLower part)))
                                    (Split gres CHR '',''))"
          by (simp add: Split_lower lower_marks comp_def)
        also have "\<dots> = sum_loop 0 (map (\<lambda>part. parseGresGpuCount pf (TrimSpace part)) (Split gres CHR '',''))"
          using each by (simp cong: map_cong)
        also have "\<dots> = parseGresGpuCount pf gres"
          using notsent noeq True by (subst parseGresGpuCount.simps) simp
        finally show ?thesis .
      next
        case False
        then have nc': "\<not> Contains (ToLower gres) '',''" by (simp add: Contains_lower)
        let ?g1 = "takeWhile (\<lambda>x. x \<noteq> CHR ''('') gres"
        have tw: "takeWhile (\<lambda>x. x \<noteq> CHR ''('') (ToLower gres) = ToLower ?g1"
          by (simp add: takeWhile_lower lower_marks)
        have sp: "Split (ToLower ?g1) CHR '':'' = map ToLower (Split ?g1 CHR '':'')"
          by (simp add: Split_lower lower_marks)
        have la: "last (map ToLower (Split ?g1 CHR '':'')) = ToLower (last (Split ?g1 CHR '':''))"
          by (simp add: last_map Split_nonempty)
        show ?thesis
          unfolding parse_single [OF notsent' noeq' nc'] parse_single [OF notsent noeq False]
            tw Let_def sp la ToLower_idem
          using pfl by simp
      qed
    qed
  qed
qed

lemma parse_case:
  assumes "\<forall>x. pf (ToLower x) = pf x" and "\<not> Contains s ''=''" and "ToLower s = ToLower s'"
  shows "parseGresGpuCount pf s = parseGresGpuCount pf s'"
proof -
  from assms(2) have "\<not> Contains (ToLower s) ''=''" by (simp add: Contains_lower)
  with assms(3) have "\<not> Contains s' ''=''" by (simp add: Contains_lower)
  from parse_lower [OF assms(1,2)] parse_lower [OF assms(1) this] assms(3) show ?thesis by simp
qed

lemma ParseFloat_dec_lower: "ParseFloat_dec (ToLower x) = ParseFloat_dec x"
proof -
  have dig: "isDigit (lower c) = isDigit c" for c
    by (auto simp: isDigit_def lower_def Let_def)
  have same: "map lower ds = ds" if "list_all isDigit ds" for ds
    using that by (induction ds) (auto simp: isDigit_def lower_def Let_def)
  have all: "list_all isDigit (map lower ds) = list_all isDigit ds" for ds
    by (induction ds) (simp_all add: dig)
  have sign: "lower c = CHR ''-'' \<longleftrightarrow> c = CHR ''-''" "lower c = CHR ''+'' \<longleftrightarrow> c = CHR ''+''" for c
    by (simp_all add: lower_fixed)
  show ?thesis
  proof (cases x)
    case Nil
    then show ?thesis by (simp add: ToLower_def)
  next
    case (Cons c r)
    show ?thesis
    proof (cases "list_all isDigit (map lower r)")
      case True
      then have "map lower r = r" using all same by blast
      with Cons True show ?thesis
        using same [of "c # r"] dig [of c]
        by (auto simp: ToLower_def ParseFloat_dec_def Let_def sign)
    next
      case False
      then have "\<not> list_all isDigit r" by (simp add: all)
      with Cons False show ?thesis
        by (auto simp: ToLower_def ParseFloat_dec_def Let_def sign dig)
    qed
  qed
qed

text \<open>
  Claim C7, amended. For inputs in the legacy form (no \<open>=\<close>): two inputs that differ
  only in the case of their letters, in any of their comma-separated terms, parse to
  the same quantity, given a parser of numbers that does not tell a text from its
  lower-cased form (as \<^verbatim>\<open>strconv.ParseFloat\<close> does not: it reads the exponent letter,
  the hexadecimal digits and prefix and the words inf, infinity and nan in either case);
  and two inputs whose comma-separated terms are a permutation of each other parse to
  the same quantity when the terms have exact counts, that is natural numbers with a
  total of at most \<open>2 ^ 53\<close>. In particular \<open>gpu:2,gpu:tesla:1\<close> and
  \<open>gpu:tesla:1,gpu:2\<close> both yield 3. In the TRES form neither holds: the first matching
  pair wins and the key is matched case-sensitively.
\<close>

theorem parseGresGpuCount_order_case_C7:
  "(\<not> Contains s ''='' \<and> \<not> Contains s' ''='' \<and> mset (Split s CHR '','') = mset (Split s' CHR '','')
       \<and> exact_counts pf s \<longrightarrow>
      parseGresGpuCount pf s = parseGresGpuCount pf s')
   \<and> (\<not> Contains s ''='' \<and> ToLower s = ToLower s' \<and> (\<forall>x. pf (ToLower x) = pf x) \<longrightarrow>
      parseGresGpuCount pf s = parseGresGpuCount pf s')
   \<and> parseGresGpuCount ParseFloat_dec ''gpu:2,gpu:tesla:1'' = Inr 3
   \<and> parseGresGpuCount ParseFloat_dec ''gpu:tesla:1,gpu:2'' = Inr 3"
proof (intro conjI impI)
  assume "\<not> Contains s ''='' \<and> \<not> Contains s' ''='' \<and> mset (Split s CHR '','') = mset (Split s' CHR '','')
       \<and> exact_counts pf s"
  then show "parseGresGpuCount pf s = parseGresGpuCount pf s'"
    using parse_permuted by blast
next
  assume "\<not> Contains s ''='' \<and> ToLower s = ToLower s' \<and> (\<forall>x. pf (ToLower x) = pf x)"
  then show "parseGresGpuCount pf s = parseGresGpuCount pf s'"
    using parse_case [of pf s s'] by blast
next
  show "parseGresGpuCount ParseFloat_dec ''gpu:2,gpu:tesla:1'' = Inr 3" by code_simp
next
  show "parseGresGpuCount ParseFloat_dec ''gpu:tesla:1,gpu:2'' = Inr 3" by code_simp
qed

theorem parseGresGpuCount_order_case_C7_witness:
  "mset (Split ''gpu:a100:4,mem:10G,GPU:1'' CHR '','') = mset (Split ''GPU:1,gpu:a100:4,mem:10G'' CHR '','')
   \<and> parseGresGpuCount ParseFloat_dec ''gpu:a100:4,mem:10G,GPU:1''
       = parseGresGpuCount ParseFloat_dec ''GPU:1,gpu:a100:4,mem:10G''
   \<and> ToLower ''GPU:1,Gpu:A100:4(IDX:0-3)'' = ToLower ''gpu:1,gpu:a100:4(idx:0-3)''
   \<and> parseGresGpuCount ParseFloat_dec ''GPU:1,Gpu:A100:4(IDX:0-3)''
       = parseGresGpuCount ParseFloat_dec ''gpu:1,gpu:a100:4(idx:0-3)''"
proof -
  have a: "\<not> Contains ''gpu:a100:4,mem:10G,GPU:1'' ''=''" "\<not> Contains ''GPU:1,gpu:a100:4,mem:10G'' ''=''"
    "\<not> Contains ''GPU:1,Gpu:A100:4(IDX:0-3)'' ''=''"
    by code_simp+
  have b: "mset (Split ''gpu:a100:4,mem:10G,GPU:1'' CHR '','') = mset (Split ''GPU:1,gpu:a100:4,mem:10G'' CHR '','')"
    by simp
  have sp: "Split ''gpu:a100:4,mem:10G,GPU:1'' CHR '','' = [''gpu:a100:4'', ''mem:10G'', ''GPU:1'']"
    by code_simp
  have p: "parseGresGpuCount ParseFloat_dec (TrimSpace ''gpu:a100:4'') = Inr 4"
    "parseGresGpuCount ParseFloat_dec (TrimSpace ''mem:10G'') = Inr 0"
    "parseGresGpuCount ParseFloat_dec (TrimSpace ''GPU:1'') = Inr 1"
    by code_simp+
  have "(4 :: real) \<in> \<nat>" by (metis Nats_numeral)
  then have e: "exact_counts ParseFloat_dec ''gpu:a100:4,mem:10G,GPU:1''"
    by (simp add: exact_counts_def sp p)
  have c: "ToLower ''GPU:1,Gpu:A100:4(IDX:0-3)'' = ToLower ''gpu:1,gpu:a100:4(idx:0-3)''" by code_simp
  have d: "\<forall>x. ParseFloat_dec (ToLower x) = ParseFloat_dec x" by (simp add: ParseFloat_dec_lower)
  from parseGresGpuCount_order_case_C7
    [where s = "''gpu:a100:4,mem:10G,GPU:1''" and s' = "''GPU:1,gpu:a100:4,mem:10G''"
       and pf = ParseFloat_dec] a b e
  have w1: "parseGresGpuCount ParseFloat_dec ''gpu:a100:4,mem:10G,GPU:1''
       = parseGresGpuCount ParseFloat_dec ''GPU:1,gpu:a100:4,mem:10G''"
    by blast
  from parseGresGpuCount_order_case_C7
    [where s = "''GPU:1,Gpu:A100:4(IDX:0-3)''" and s' = "''gpu:1,gpu:a100:4(idx:0-3)''"
       and pf = ParseFloat_dec] a c d
  have w2: "parseGresGpuCount ParseFloat_dec ''GPU:1,Gpu:A100:4(IDX:0-3)''
       = parseGresGpuCount ParseFloat_dec ''gpu:1,gpu:a100:4(idx:0-3)''"
    by blast
  from b w1 c w2 show ?thesis by blast
qed

text \<open>
  Claim C7 as stated fails on TRES strings. The two inputs below have the same
  comma-separated terms in different order and parse to 4 and to 2; and writing the
  marker of \<open>gres/gpu=4\<close> in capitals changes the parsed quantity from 4 to 0.
\<close>

theorem parseGresGpuCount_order_case_C7_counterexample:
  "mset (Split ''gres/gpu=4,gres/gpu:a100=2'' CHR '','') = mset (Split ''gres/gpu:a100=2,gres/gpu=4'' CHR '','')
   \<and> parseGresGpuCount ParseFloat_dec ''gres/gpu=4,gres/gpu:a100=2'' = Inr 4
   \<and> parseGresGpuCount ParseFloat_dec ''gres/gpu:a100=2,gres/gpu=4'' = Inr 2
   \<and> parseGresGpuCount ParseFloat_dec ''gres/gpu=4'' = Inr 4
   \<and> parseGresGpuCount ParseFloat_dec ''gres/GPU=4'' = Inr 0"
proof (intro conjI)
  show "mset (Split ''gres/gpu=4,gres/gpu:a100=2'' CHR '','') = mset (Split ''gres/gpu:a100=2,gres/gpu=4'' CHR '','')"
    by simp
  show "parseGresGpuCount ParseFloat_dec ''gres/gpu=4,gres/gpu:a100=2'' = Inr 4" by code_simp
  show "parseGresGpuCount ParseFloat_dec ''gres/gpu:a100=2,gres/gpu=4'' = Inr 2" by code_simp
  show "parseGresGpuCount ParseFloat_dec ''gres/gpu=4'' = Inr 4" by code_simp
  show "parseGresGpuCount ParseFloat_dec ''gres/GPU=4'' = Inr 0" by code_simp
qed

section \<open>What a fetch changes in the state\<close>

lemma sinfo_FetchRawBytes_eq:
  "sinfo_FetchRawBytes env s =
     (fst (sinfo_run env (calls (sinfoScraper s))),
      s\<lparr>sinfoScraper := \<lparr>calls = Suc (calls (sinfoScraper s)),
                          last_duration = snd (sinfo_run env (calls (sinfoScraper s)))\<rparr>,
        scrapes := (Sinfo, snd (sinfo_run env (calls (sinfoScraper s)))) # scrapes s\<rparr>)"
  by (simp add: sinfo_FetchRawBytes_def split_beta)

lemma sacct_FetchRawBytes_eq:
  "sacct_FetchRawBytes env s =
     (fst (sacct_run env (calls (sacctScraper s))),
      s\<lparr>sacctScraper := \<lparr>calls = Suc (calls (sacctScraper s)),
                          last_duration = snd (sacct_run env (calls (sacctScraper s)))\<rparr>,
        scrapes := (Sacct, snd (sacct_run env (calls (sacctScraper s)))) # scrapes s\<rparr>)"
  by (simp add: sacct_FetchRawBytes_def split_beta)

lemma json_total_frame:
  "GpuJsonFetcher_fetchTotalGpus env s = (r, s1) \<Longrightarrow>
     after_sinfo env s s1 \<and> ((\<exists>t. r = Inr t) \<longrightarrow> quiet s s1)"
  by (auto simp: GpuJsonFetcher_fetchTotalGpus_def sinfo_FetchRawBytes_eq after_sinfo_def quiet_def
           split: sum.splits if_splits)

lemma json_alloc_frame:
  "GpuJsonFetcher_fetchAllocatedGpus env s = (r, s1) \<Longrightarrow>
     after_sacct env s s1 \<and> ((\<exists>t. r = Inr t) \<longrightarrow> quiet s s1)"
  by (auto simp: GpuJsonFetcher_fetchAllocatedGpus_def sacct_FetchRawBytes_eq after_sacct_def quiet_def
           split: sum.splits if_splits)

lemma cli_total_frame:
  "GpuCliFallbackFetcher_fetchTotalGpus env s = (r, s1) \<Longrightarrow>
     after_sinfo env s s1 \<and> ((\<exists>t. r = Inr t) \<longrightarrow> quiet s s1)"
  by (auto simp: GpuCliFallbackFetcher_fetchTotalGpus_def sinfo_FetchRawBytes_eq after_sinfo_def
                 quiet_def Let_def
           split: sum.splits if_splits)

lemma cli_alloc_frame:
  "GpuCliFallbackFetcher_fetchAllocatedGpus env s = (r, s1) \<Longrightarrow>
     after_sacct env s s1 \<and> ((\<exists>t. r = Inr t) \<longrightarrow> quiet s s1)"
  by (auto simp: GpuCliFallbackFetcher_fetchAllocatedGpus_def sacct_FetchRawBytes_eq after_sacct_def
                 quiet_def Let_def
           split: sum.splits if_splits)

text \<open>A fetch: the sinfo stage, then, if it succeeded, the sacct stage.\<close>

lemma json_fetch_cases:
  assumes "GpuJsonFetcher_fetch env s = (r, s')"
  obtains (sinfo_failed) e where "GpuJsonFetcher_fetchTotalGpus env s = (Inl e, s')" "r = Inl e"
  | (sacct_failed) t s1 e where "GpuJsonFetcher_fetchTotalGpus env s = (Inr t, s1)"
      "GpuJsonFetcher_fetchAllocatedGpus env s1 = (Inl e, s')" "r = Inl e"
  | (fetched) t s1 a where "GpuJsonFetcher_fetchTotalGpus env s = (Inr t, s1)"
      "GpuJsonFetcher_fetchAllocatedGpus env s1 = (Inr a, s')"
      "r = Inr \<lparr>Alloc = a, Idle = t - a, Total = t, Utilization = (if t > 0 then a / t else 0)\<rparr>"
  using assms
  by (auto simp: GpuJsonFetcher_fetch_def Let_def split: prod.splits sum.splits)

lemma cli_fetch_cases:
  assumes "GpuCliFallbackFetcher_fetch env s = (r, s')"
  obtains (sinfo_failed) e where "GpuCliFallbackFetcher_fetchTotalGpus env s = (Inl e, s')" "r = Inl e"
  | (sacct_failed) t s1 e where "GpuCliFallbackFetcher_fetchTotalGpus env s = (Inr t, s1)"
      "GpuCliFallbackFetcher_fetchAllocatedGpus env s1 = (Inl e, s')" "r = Inl e"
  | (fetched) t s1 a where "GpuCliFallbackFetcher_fetchTotalGpus env s = (Inr t, s1)"
      "GpuCliFallbackFetcher_fetchAllocatedGpus env s1 = (Inr a, s')"
      "r = Inr \<lparr>Alloc = a, Idle = t - a, Total = t, Utilization = (if t > 0 then a / t else 0)\<rparr>"
  using assms
  by (auto simp: GpuCliFallbackFetcher_fetch_def Let_def split: prod.splits sum.splits)

lemma json_fetch_frame:
  assumes "GpuJsonFetcher_fetch env s = (r, s')"
  shows "cache s' = cache s" and "ticks s' = ticks s"
    and "sinfoScraper s' = \<lparr>calls = Suc (calls (sinfoScraper s)),
                              last_duration = snd (sinfo_run env (calls (sinfoScraper s)))\<rparr>"
  using assms
  by (cases rule: json_fetch_cases;
      auto dest!: json_total_frame json_alloc_frame simp: after_sinfo_def after_sacct_def)+

lemma cli_fetch_frame:
  assumes "GpuCliFallbackFetcher_fetch env s = (r, s')"
  shows "cache s' = cache s" and "ticks s' = ticks s"
    and "sinfoScraper s' = \<lparr>calls = Suc (calls (sinfoScraper s)),
                              last_duration = snd (sinfo_run env (calls (sinfoScraper s)))\<rparr>"
  using assms
  by (cases rule: cli_fetch_cases;
      auto dest!: cli_total_frame cli_alloc_frame simp: after_sinfo_def after_sacct_def)+

section \<open>The derived fields of a snapshot\<close>

lemma json_fetch_fields:
  assumes "fst (GpuJsonFetcher_fetch env s) = Inr m"
  shows "fst (GpuJsonFetcher_fetchTotalGpus env s) = Inr (Total m)"
    and "fst (GpuJsonFetcher_fetchAllocatedGpus env (snd (GpuJsonFetcher_fetchTotalGpus env s))) = Inr (Alloc m)"
    and "Idle m = Total m - Alloc m"
    and "Utilization m = (if Total m > 0 then Alloc m / Total m else 0)"
proof -
  obtain r s' where f: "GpuJsonFetcher_fetch env s = (r, s')" by (cases "GpuJsonFetcher_fetch env s")
  with assms have r: "r = Inr m" by simp
  from f show "fst (GpuJsonFetcher_fetchTotalGpus env s) = Inr (Total m)"
    and "fst (GpuJsonFetcher_fetchAllocatedGpus env (snd (GpuJsonFetcher_fetchTotalGpus env s))) = Inr (Alloc m)"
    and "Idle m = Total m - Alloc m"
    and "Utilization m = (if Total m > 0 then Alloc m / Total m else 0)"
    using r by (cases rule: json_fetch_cases; auto)+
qed

lemma cli_fetch_fields:
  assumes "fst (GpuCliFallbackFetcher_fetch env s) = Inr m"
  shows "fst (GpuCliFallbackFetcher_fetchTotalGpus env s) = Inr (Total m)"
    and "fst (GpuCliFallbackFetcher_fetchAllocatedGpus env (snd (GpuCliFallbackFetcher_fetchTotalGpus env s))) = Inr (Alloc m)"
    and "Idle m = Total m - Alloc m"
    and "Utilization m = (if Total m > 0 then Alloc m / Total m else 0)"
proof -
  obtain r s' where f: "GpuCliFallbackFetcher_fetch env s = (r, s')"
    by (cases "GpuCliFallbackFetcher_fetch env s")
  with assms have r: "r = Inr m" by simp
  from f show "fst (GpuCliFallbackFetcher_fetchTotalGpus env s) = Inr (Total m)"
    and "fst (GpuCliFallbackFetcher_fetchAllocatedGpus env (snd (GpuCliFallbackFetcher_fetchTotalGpus env s))) = Inr (Alloc m)"
    and "Idle m = Total m - Alloc m"
    and "Utilization m = (if Total m > 0 then Alloc m / Total m else 0)"
    using r by (cases rule: cli_fetch_cases; auto)+
qed

text \<open>
  Claim C3. A snapshot produced by a successful fetch, in the JSON variant and in the
  CLI-fallback variant alike, has as \<open>Total\<close> the total accumulated by the sinfo stage
  and as \<open>Alloc\<close> the total accumulated by the sacct stage, and its derived fields are
  \<open>Idle = Total - Alloc\<close> and \<open>Utilization = Alloc / Total\<close> when \<open>Total > 0\<close>, else 0.
\<close>

theorem fetch_derived_fields_C3:
  "(fst (GpuJsonFetcher_fetch env s) = Inr m \<longrightarrow>
      fst (GpuJsonFetcher_fetchTotalGpus env s) = Inr (Total m)
      \<and> fst (GpuJsonFetcher_fetchAllocatedGpus env (snd (GpuJsonFetcher_fetchTotalGpus env s))) = Inr (Alloc m)
      \<and> Idle m = Total m - Alloc m
      \<and> Utilization m = (if Total m > 0 then Alloc m / Total m else 0))
   \<and> (fst (GpuCliFallbackFetcher_fetch env s) = Inr m \<longrightarrow>
      fst (GpuCliFallbackFetcher_fetchTotalGpus env s) = Inr (Total m)
      \<and> fst (GpuCliFallbackFetcher_fetchAllocatedGpus env (snd (GpuCliFallbackFetcher_fetchTotalGpus env s))) = Inr (Alloc m)
      \<and> Idle m = Total m - Alloc m
      \<and> Utilization m = (if Total m > 0 then Alloc m / Total m else 0))"
  using json_fetch_fields [of env s m] cli_fetch_fields [of env s m] by blast

theorem fetch_derived_fields_C3_witness:
  "fst (GpuJsonFetcher_fetch mock_env (NewGpuFetcher 10))
     = Inr \<lparr>Alloc = 3, Idle = 5, Total = 8, Utilization = 3 / 8\<rparr>
   \<and> fst (GpuCliFallbackFetcher_fetch mock_env (NewGpuFetcher 10))
     = Inr \<lparr>Alloc = 3, Idle = 5, Total = 8, Utilization = 3 / 8\<rparr>
   \<and> fst (GpuJsonFetcher_fetchTotalGpus mock_env (NewGpuFetcher 10)) = Inr 8
   \<and> fst (GpuCliFallbackFetcher_fetchTotalGpus mock_env (NewGpuFetcher 10)) = Inr 8"
proof -
  have j: "fst (GpuJsonFetcher_fetch mock_env (NewGpuFetcher 10))
     = Inr \<lparr>Alloc = 3, Idle = 5, Total = 8, Utilization = 3 / 8\<rparr>" by code_simp
  have c: "fst (GpuCliFallbackFetcher_fetch mock_env (NewGpuFetcher 10))
     = Inr \<lparr>Alloc = 3, Idle = 5, Total = 8, Utilization = 3 / 8\<rparr>" by code_simp
  from fetch_derived_fields_C3
    [where env = mock_env and s = "NewGpuFetcher 10"
       and m = "\<lparr>Alloc = 3, Idle = 5, Total = 8, Utilization = 3 / 8\<rparr>"] j c
  show ?thesis by simp
qed

section \<open>The cache\<close>

lemma json_refresh_eq:
  "GpuJsonFetcher_refresh env s =
     (case GpuJsonFetcher_fetch env (s\<lparr>ticks := Suc (ticks s)\<rparr>) of
        (Inl err, s2) \<Rightarrow> (Inl err, s2)
      | (Inr metrics, s2) \<Rightarrow>
          (Inr metrics,
           s2\<lparr>ticks := Suc (Suc (ticks s2)),
              cache := (cache s2)\<lparr>cache_duration := clock env (ticks s2) - clock env (ticks s),
                                     cache_cache := Some metrics,
                                     cache_t := clock env (Suc (ticks s2))\<rparr>\<rparr>))"
  by (simp add: GpuJsonFetcher_refresh_def time_Now_def split: prod.splits sum.splits)

lemma cli_refresh_eq:
  "GpuCliFallbackFetcher_refresh env s =
     (case GpuCliFallbackFetcher_fetch env (s\<lparr>ticks := Suc (ticks s)\<rparr>) of
        (Inl err, s2) \<Rightarrow> (Inl err, s2)
      | (Inr metrics, s2) \<Rightarrow>
          (Inr metrics,
           s2\<lparr>ticks := Suc (Suc (ticks s2)),
              cache := (cache s2)\<lparr>cache_duration := clock env (ticks s2) - clock env (ticks s),
                                     cache_cache := Some metrics,
                                     cache_t := clock env (Suc (ticks s2))\<rparr>\<rparr>))"
  by (simp add: GpuCliFallbackFetcher_refresh_def time_Now_def split: prod.splits sum.splits)

lemma json_FetchMetrics_hit:
  "cache_cache (cache s) = Some m \<Longrightarrow> cache_hit env s \<Longrightarrow>
   GpuJsonFetcher_FetchMetrics env s = (Inr m, s\<lparr>ticks := Suc (ticks s)\<rparr>)"
  by (simp add: GpuJsonFetcher_FetchMetrics_def cache_hit_def time_Now_def)

lemma cli_FetchMetrics_hit:
  "cache_cache (cache s) = Some m \<Longrightarrow> cache_hit env s \<Longrightarrow>
   GpuCliFallbackFetcher_FetchMetrics env s = (Inr m, s\<lparr>ticks := Suc (ticks s)\<rparr>)"
  by (simp add: GpuCliFallbackFetcher_FetchMetrics_def cache_hit_def time_Now_def)

lemma json_FetchMetrics_miss:
  "\<not> cache_hit env s \<Longrightarrow>
   GpuJsonFetcher_FetchMetrics env s =
     (case GpuJsonFetcher_fetch env (fetch_start s) of
        (Inl err, s2) \<Rightarrow> (Inl err, s2)
      | (Inr metrics, s2) \<Rightarrow>
          (Inr metrics,
           s2\<lparr>ticks := Suc (Suc (ticks s2)),
              cache := (cache s2)\<lparr>cache_duration := clock env (ticks s2) - clock env (ticks (fetch_start s) - 1),
                                     cache_cache := Some metrics,
                                     cache_t := clock env (Suc (ticks s2))\<rparr>\<rparr>))"
  by (cases "cache_cache (cache s)")
     (simp_all add: GpuJsonFetcher_FetchMetrics_def cache_hit_def time_Now_def json_refresh_eq fetch_start_def
                   split: prod.splits sum.splits)

lemma cli_FetchMetrics_miss:
  "\<not> cache_hit env s \<Longrightarrow>
   GpuCliFallbackFetcher_FetchMetrics env s =
     (case GpuCliFallbackFetcher_fetch env (fetch_start s) of
        (Inl err, s2) \<Rightarrow> (Inl err, s2)
      | (Inr metrics, s2) \<Rightarrow>
          (Inr metrics,
           s2\<lparr>ticks := Suc (Suc (ticks s2)),
              cache := (cache s2)\<lparr>cache_duration := clock env (ticks s2) - clock env (ticks (fetch_start s) - 1),
                                     cache_cache := Some metrics,
                                     cache_t := clock env (Suc (ticks s2))\<rparr>\<rparr>))"
  by (cases "cache_cache (cache s)")
     (simp_all add: GpuCliFallbackFetcher_FetchMetrics_def cache_hit_def time_Now_def cli_refresh_eq fetch_start_def
                   split: prod.splits sum.splits)

lemma json_FetchMetrics_stores:
  assumes "GpuJsonFetcher_FetchMetrics env s = (Inr m, s1)"
  shows "cache_cache (cache s1) = Some m"
proof (cases "cache_hit env s")
  case True
  then obtain c where c: "cache_cache (cache s) = Some c"
    by (auto simp: cache_hit_def split: option.splits)
  from json_FetchMetrics_hit [OF c True] assms show ?thesis using c by auto
next
  case False
  from json_FetchMetrics_miss [OF False] assms show ?thesis
    by (auto split: prod.splits sum.splits)
qed

lemma cli_FetchMetrics_stores:
  assumes "GpuCliFallbackFetcher_FetchMetrics env s = (Inr m, s1)"
  shows "cache_cache (cache s1) = Some m"
proof (cases "cache_hit env s")
  case True
  then obtain c where c: "cache_cache (cache s) = Some c"
    by (auto simp: cache_hit_def split: option.splits)
  from cli_FetchMetrics_hit [OF c True] assms show ?thesis using c by auto
next
  case False
  from cli_FetchMetrics_miss [OF False] assms show ?thesis
    by (auto split: prod.splits sum.splits)
qed

text \<open>
  Claim C1. When a snapshot is cached and the time since it was stored, in seconds, is
  strictly below the limit, \<open>FetchMetrics\<close> of either variant returns the cached
  snapshot and changes nothing but the count of clock readings: no scraper is invoked.
  Hence after a call that returned a snapshot, a second call made while the cache is
  unchanged and within the limit returns the same snapshot and invokes no scraper.
\<close>

theorem FetchMetrics_cache_hit_C1:
  "(cache_cache (cache s) = Some m \<and> cache_hit env s \<longrightarrow>
      GpuJsonFetcher_FetchMetrics env s = (Inr m, s\<lparr>ticks := Suc (ticks s)\<rparr>)
      \<and> GpuCliFallbackFetcher_FetchMetrics env s = (Inr m, s\<lparr>ticks := Suc (ticks s)\<rparr>))
   \<and> (GpuJsonFetcher_FetchMetrics env s = (Inr m1, s1) \<and> cache s2 = cache s1 \<and> cache_hit env s2 \<longrightarrow>
      fst (GpuJsonFetcher_FetchMetrics env s2) = Inr m1
      \<and> scrapes (snd (GpuJsonFetcher_FetchMetrics env s2)) = scrapes s2
      \<and> sinfoScraper (snd (GpuJsonFetcher_FetchMetrics env s2)) = sinfoScraper s2
      \<and> sacctScraper (snd (GpuJsonFetcher_FetchMetrics env s2)) = sacctScraper s2)
   \<and> (GpuCliFallbackFetcher_FetchMetrics env s = (Inr m1, s1) \<and> cache s2 = cache s1 \<and> cache_hit env s2 \<longrightarrow>
      fst (GpuCliFallbackFetcher_FetchMetrics env s2) = Inr m1
      \<and> scrapes (snd (GpuCliFallbackFetcher_FetchMetrics env s2)) = scrapes s2
      \<and> sinfoScraper (snd (GpuCliFallbackFetcher_FetchMetrics env s2)) = sinfoScraper s2
      \<and> sacctScraper (snd (GpuCliFallbackFetcher_FetchMetrics env s2)) = sacctScraper s2)"
proof (intro conjI impI)
  assume "cache_cache (cache s) = Some m \<and> cache_hit env s"
  then show "GpuJsonFetcher_FetchMetrics env s = (Inr m, s\<lparr>ticks := Suc (ticks s)\<rparr>)"
    and "GpuCliFallbackFetcher_FetchMetrics env s = (Inr m, s\<lparr>ticks := Suc (ticks s)\<rparr>)"
    by (simp_all add: json_FetchMetrics_hit cli_FetchMetrics_hit)
next
  assume a: "GpuJsonFetcher_FetchMetrics env s = (Inr m1, s1) \<and> cache s2 = cache s1 \<and> cache_hit env s2"
  then have "cache_cache (cache s2) = Some m1" by (auto dest: json_FetchMetrics_stores)
  with a have "GpuJsonFetcher_FetchMetrics env s2 = (Inr m1, s2\<lparr>ticks := Suc (ticks s2)\<rparr>)"
    by (simp add: json_FetchMetrics_hit)
  then show "fst (GpuJsonFetcher_FetchMetrics env s2) = Inr m1"
    and "scrapes (snd (GpuJsonFetcher_FetchMetrics env s2)) = scrapes s2"
    and "sinfoScraper (snd (GpuJsonFetcher_FetchMetrics env s2)) = sinfoScraper s2"
    and "sacctScraper (snd (GpuJsonFetcher_FetchMetrics env s2)) = sacctScraper s2"
    by simp_all
next
  assume a: "GpuCliFallbackFetcher_FetchMetrics env s = (Inr m1, s1) \<and> cache s2 = cache s1 \<and> cache_hit env s2"
  then have "cache_cache (cache s2) = Some m1" by (auto dest: cli_FetchMetrics_stores)
  with a have "GpuCliFallbackFetcher_FetchMetrics env s2 = (Inr m1, s2\<lparr>ticks := Suc (ticks s2)\<rparr>)"
    by (simp add: cli_FetchMetrics_hit)
  then show "fst (GpuCliFallbackFetcher_FetchMetrics env s2) = Inr m1"
    and "scrapes (snd (GpuCliFallbackFetcher_FetchMetrics env s2)) = scrapes s2"
    and "sinfoScraper (snd (GpuCliFallbackFetcher_FetchMetrics env s2)) = sinfoScraper s2"
    and "sacctScraper (snd (GpuCliFallbackFetcher_FetchMetrics env s2)) = sacctScraper s2"
    by simp_all
qed

theorem FetchMetrics_cache_hit_C1_witness:
  "fst (GpuJsonFetcher_FetchMetrics mock_env (NewGpuFetcher 10))
     = Inr \<lparr>Alloc = 3, Idle = 5, Total = 8, Utilization = 3 / 8\<rparr>
   \<and> cache_hit mock_env (snd (GpuJsonFetcher_FetchMetrics mock_env (NewGpuFetcher 10)))
   \<and> fst (GpuJsonFetcher_FetchMetrics mock_env (snd (GpuJsonFetcher_FetchMetrics mock_env (NewGpuFetcher 10))))
     = Inr \<lparr>Alloc = 3, Idle = 5, Total = 8, Utilization = 3 / 8\<rparr>
   \<and> scrapes (snd (GpuJsonFetcher_FetchMetrics mock_env (snd (GpuJsonFetcher_FetchMetrics mock_env (NewGpuFetcher 10)))))
     = scrapes (snd (GpuJsonFetcher_FetchMetrics mock_env (NewGpuFetcher 10)))
   \<and> scrapes (snd (GpuJsonFetcher_FetchMetrics mock_env (NewGpuFetcher 10))) = [(Sacct, 7), (Sinfo, 3)]"
proof -
  let ?s1 = "snd (GpuJsonFetcher_FetchMetrics mock_env (NewGpuFetcher 10))"
  let ?m = "\<lparr>Alloc = 3, Idle = 5, Total = 8, Utilization = 3 / 8\<rparr>"
  have f: "fst (GpuJsonFetcher_FetchMetrics mock_env (NewGpuFetcher 10)) = Inr ?m" by code_simp
  then have first: "GpuJsonFetcher_FetchMetrics mock_env (NewGpuFetcher 10) = (Inr ?m, ?s1)"
    by (simp add: prod_eq_iff)
  have h: "cache_hit mock_env ?s1" by code_simp
  have t: "scrapes ?s1 = [(Sacct, 7), (Sinfo, 3)]" by code_simp
  from FetchMetrics_cache_hit_C1
    [where env = mock_env and s = "NewGpuFetcher 10" and ?m1.0 = ?m and ?s1.0 = ?s1 and ?s2.0 = ?s1]
    first h
  have "fst (GpuJsonFetcher_FetchMetrics mock_env ?s1) = Inr ?m"
    and "scrapes (snd (GpuJsonFetcher_FetchMetrics mock_env ?s1)) = scrapes ?s1"
    by simp_all
  with f h t show ?thesis by simp
qed

lemma Seconds_mono: "a \<le> b \<Longrightarrow> Seconds a \<le> Seconds b"
  by (simp add: Seconds_def)

lemma still_missing:
  assumes "\<not> cache_hit env s" and "cache s2 = cache s" and "clock env (ticks s) \<le> clock env (ticks s2)"
  shows "\<not> cache_hit env s2"
proof (cases "cache_cache (cache s)")
  case None
  with assms(2) show ?thesis by (simp add: cache_hit_def)
next
  case (Some c)
  with assms(1) have "cache_limit (cache s) \<le> Seconds (clock env (ticks s) - cache_t (cache s))"
    by (simp add: cache_hit_def)
  also have "\<dots> \<le> Seconds (clock env (ticks s2) - cache_t (cache s))"
    using assms(3) by (intro Seconds_mono) simp
  finally show ?thesis using Some assms(2) by (simp add: cache_hit_def)
qed

lemma json_miss_invokes_sinfo:
  assumes "\<not> cache_hit env s"
  shows "calls (sinfoScraper (snd (GpuJsonFetcher_FetchMetrics env s))) = Suc (calls (sinfoScraper s))"
proof -
  obtain r s' where f: "GpuJsonFetcher_fetch env (fetch_start s) = (r, s')"
    by (cases "GpuJsonFetcher_fetch env (fetch_start s)")
  from json_fetch_frame(3) [OF f] have "calls (sinfoScraper s') = Suc (calls (sinfoScraper s))"
    by (simp add: fetch_start_def)
  with f show ?thesis
    by (simp add: json_FetchMetrics_miss [OF assms] split: sum.splits)
qed

lemma cli_miss_invokes_sinfo:
  assumes "\<not> cache_hit env s"
  shows "calls (sinfoScraper (snd (GpuCliFallbackFetcher_FetchMetrics env s))) = Suc (calls (sinfoScraper s))"
proof -
  obtain r s' where f: "GpuCliFallbackFetcher_fetch env (fetch_start s) = (r, s')"
    by (cases "GpuCliFallbackFetcher_fetch env (fetch_start s)")
  from cli_fetch_frame(3) [OF f] have "calls (sinfoScraper s') = Suc (calls (sinfoScraper s))"
    by (simp add: fetch_start_def)
  with f show ?thesis
    by (simp add: cli_FetchMetrics_miss [OF assms] split: sum.splits)
qed

text \<open>
  Claim C2. When a call of \<open>FetchMetrics\<close> misses the cache and its fetch fails, the
  call returns that error and leaves the cache, snapshot and timestamp, as it was; no
  error is stored, so a later call on the same cache at a time not earlier misses again
  and invokes the scraper anew.
\<close>

theorem FetchMetrics_failure_C2:
  "(\<not> cache_hit env s \<and> GpuJsonFetcher_fetch env (fetch_start s) = (Inl e, s') \<longrightarrow>
      GpuJsonFetcher_FetchMetrics env s = (Inl e, s') \<and> cache s' = cache s
      \<and> (\<forall>s2. cache s2 = cache s' \<and> clock env (ticks s) \<le> clock env (ticks s2) \<longrightarrow>
            \<not> cache_hit env s2
            \<and> calls (sinfoScraper (snd (GpuJsonFetcher_FetchMetrics env s2))) = Suc (calls (sinfoScraper s2))))
   \<and> (\<not> cache_hit env s \<and> GpuCliFallbackFetcher_fetch env (fetch_start s) = (Inl e, s') \<longrightarrow>
      GpuCliFallbackFetcher_FetchMetrics env s = (Inl e, s') \<and> cache s' = cache s
      \<and> (\<forall>s2. cache s2 = cache s' \<and> clock env (ticks s) \<le> clock env (ticks s2) \<longrightarrow>
            \<not> cache_hit env s2
            \<and> calls (sinfoScraper (snd (GpuCliFallbackFetcher_FetchMetrics env s2))) = Suc (calls (sinfoScraper s2))))"
proof (intro conjI impI allI)
  assume a: "\<not> cache_hit env s \<and> GpuJsonFetcher_fetch env (fetch_start s) = (Inl e, s')"
  then show "GpuJsonFetcher_FetchMetrics env s = (Inl e, s')"
    by (simp add: json_FetchMetrics_miss)
  from a json_fetch_frame(1) [of env "fetch_start s" "Inl e" s']
  show c: "cache s' = cache s" by (simp add: fetch_start_def)
  fix s2 :: state
  assume b: "cache s2 = cache s' \<and> clock env (ticks s) \<le> clock env (ticks s2)"
  with a c show m: "\<not> cache_hit env s2" using still_missing [of env s s2] by simp
  then show "calls (sinfoScraper (snd (GpuJsonFetcher_FetchMetrics env s2))) = Suc (calls (sinfoScraper s2))"
    by (rule json_miss_invokes_sinfo)
next
  assume a: "\<not> cache_hit env s \<and> GpuCliFallbackFetcher_fetch env (fetch_start s) = (Inl e, s')"
  then show "GpuCliFallbackFetcher_FetchMetrics env s = (Inl e, s')"
    by (simp add: cli_FetchMetrics_miss)
  from a cli_fetch_frame(1) [of env "fetch_start s" "Inl e" s']
  show c: "cache s' = cache s" by (simp add: fetch_start_def)
  fix s2 :: state
  assume b: "cache s2 = cache s' \<and> clock env (ticks s) \<le> clock env (ticks s2)"
  with a c show m: "\<not> cache_hit env s2" using still_missing [of env s s2] by simp
  then show "calls (sinfoScraper (snd (GpuCliFallbackFetcher_FetchMetrics env s2))) = Suc (calls (sinfoScraper s2))"
    by (rule cli_miss_invokes_sinfo)
qed

theorem FetchMetrics_failure_C2_witness:
  "cache_cache (cache stale_state) = Some \<lparr>Alloc = 3, Idle = 5, Total = 8, Utilization = 3 / 8\<rparr>
   \<and> \<not> cache_hit mock_env_down stale_state
   \<and> fst (GpuJsonFetcher_fetch mock_env_down (fetch_start stale_state)) = Inl (Error ''exit status 1'')
   \<and> fst (GpuJsonFetcher_FetchMetrics mock_env_down stale_state) = Inl (Error ''exit status 1'')
   \<and> cache (snd (GpuJsonFetcher_FetchMetrics mock_env_down stale_state)) = cache stale_state"
proof -
  let ?s' = "snd (GpuJsonFetcher_fetch mock_env_down (fetch_start stale_state))"
  have c: "cache_cache (cache stale_state) = Some \<lparr>Alloc = 3, Idle = 5, Total = 8, Utilization = 3 / 8\<rparr>"
    by code_simp
  have m: "\<not> cache_hit mock_env_down stale_state" by code_simp
  have f: "fst (GpuJsonFetcher_fetch mock_env_down (fetch_start stale_state)) = Inl (Error ''exit status 1'')"
    by code_simp
  then have "GpuJsonFetcher_fetch mock_env_down (fetch_start stale_state) = (Inl (Error ''exit status 1''), ?s')"
    by (simp add: prod_eq_iff)
  with FetchMetrics_failure_C2
    [where env = mock_env_down and s = stale_state and e = "Error ''exit status 1''" and s' = ?s'] m
  have "GpuJsonFetcher_FetchMetrics mock_env_down stale_state = (Inl (Error ''exit status 1''), ?s')"
    and "cache ?s' = cache stale_state"
    by simp_all
  with c m f show ?thesis by simp
qed

section \<open>The totals are neither compared nor checked for their sign\<close>

text \<open>
  Claim C4 fails of the code, in both variants. With one node of one GPU in the sinfo
  answer and jobs holding three in the sacct answer, the snapshot has \<open>Total = 1\<close> and
  \<open>Alloc = 3\<close>; with a job record \<open>gpu:-2\<close>, it has \<open>Alloc = -2\<close>. The tests of the
  repository expect \<open>Total \<ge> Alloc\<close> of the first fetcher and \<open>Total \<ge> 0\<close>,
  \<open>Alloc \<ge> 0\<close> of the second.
\<close>

theorem fetch_totals_C4_failing_input:
  "fst (GpuJsonFetcher_fetch
          (mock_env\<lparr>json_sinfo := (\<lambda>b. Inr \<lparr>sinfo_Errors = [], Nodes = [\<lparr>Gres = ''gpu:1''\<rparr>]\<rparr>)\<rparr>)
          (NewGpuFetcher 10))
     = Inr \<lparr>Alloc = 3, Idle = - 2, Total = 1, Utilization = 3\<rparr>
   \<and> fst (GpuCliFallbackFetcher_fetch
          (mock_env\<lparr>sinfo_run := (\<lambda>k. (Inr ''n1|gpu:1'', 3))\<rparr>)
          (NewGpuFetcher 10))
     = Inr \<lparr>Alloc = 3, Idle = - 2, Total = 1, Utilization = 3\<rparr>
   \<and> \<not> (3 :: real) \<le> 1
   \<and> fst (GpuJsonFetcher_fetch
          (mock_env\<lparr>json_sacct := (\<lambda>b. Inr \<lparr>sacct_Errors = [], Jobs = [\<lparr>AllocGRES = ''gpu:-2''\<rparr>]\<rparr>)\<rparr>)
          (NewGpuFetcher 10))
     = Inr \<lparr>Alloc = - 2, Idle = 10, Total = 8, Utilization = - (1 / 4)\<rparr>
   \<and> fst (GpuCliFallbackFetcher_fetch
          (mock_env\<lparr>sacct_run := (\<lambda>k. (Inr ''gpu:-2'', 7))\<rparr>)
          (NewGpuFetcher 10))
     = Inr \<lparr>Alloc = - 2, Idle = 10, Total = 8, Utilization = - (1 / 4)\<rparr>
   \<and> \<not> (0 :: real) \<le> - 2"
  by code_simp

section \<open>The duration a fetcher reports\<close>

lemma json_fetch_scrapes:
  assumes "GpuJsonFetcher_fetch env s = (r, s')"
  shows "find (\<lambda>e. fst e = Sinfo) (scrapes s') = Some (Sinfo, snd (sinfo_run env (calls (sinfoScraper s))))"
  using assms
  by (cases rule: json_fetch_cases;
      auto dest!: json_total_frame json_alloc_frame simp: after_sinfo_def after_sacct_def)

lemma cli_fetch_scrapes:
  assumes "GpuCliFallbackFetcher_fetch env s = (r, s')"
  shows "find (\<lambda>e. fst e = Sinfo) (scrapes s') = Some (Sinfo, snd (sinfo_run env (calls (sinfoScraper s))))"
  using assms
  by (cases rule: cli_fetch_cases;
      auto dest!: cli_total_frame cli_alloc_frame simp: after_sinfo_def after_sacct_def)

lemma json_FetchMetrics_duration:
  "GpuJsonFetcher_ScrapeDuration (snd (GpuJsonFetcher_FetchMetrics env s)) =
     (if cache_hit env s then GpuJsonFetcher_ScrapeDuration s
      else snd (sinfo_run env (calls (sinfoScraper s))))"
proof (cases "cache_hit env s")
  case True
  then obtain c where c: "cache_cache (cache s) = Some c"
    by (auto simp: cache_hit_def split: option.splits)
  from json_FetchMetrics_hit [OF c True] True show ?thesis
    by (simp add: GpuJsonFetcher_ScrapeDuration_def)
next
  case False
  obtain r s' where f: "GpuJsonFetcher_fetch env (fetch_start s) = (r, s')"
    by (cases "GpuJsonFetcher_fetch env (fetch_start s)")
  from json_fetch_frame(3) [OF f]
  have "last_duration (sinfoScraper s') = snd (sinfo_run env (calls (sinfoScraper s)))"
    by (simp add: fetch_start_def)
  with f False show ?thesis
    by (simp add: json_FetchMetrics_miss [OF False] GpuJsonFetcher_ScrapeDuration_def split: sum.splits)
qed

lemma cli_FetchMetrics_duration:
  "GpuCliFallbackFetcher_ScrapeDuration (snd (GpuCliFallbackFetcher_FetchMetrics env s)) =
     (if cache_hit env s then GpuCliFallbackFetcher_ScrapeDuration s
      else snd (sinfo_run env (calls (sinfoScraper s))))"
proof (cases "cache_hit env s")
  case True
  then obtain c where c: "cache_cache (cache s) = Some c"
    by (auto simp: cache_hit_def split: option.splits)
  from cli_FetchMetrics_hit [OF c True] True show ?thesis
    by (simp add: GpuCliFallbackFetcher_ScrapeDuration_def)
next
  case False
  obtain r s' where f: "GpuCliFallbackFetcher_fetch env (fetch_start s) = (r, s')"
    by (cases "GpuCliFallbackFetcher_fetch env (fetch_start s)")
  from cli_fetch_frame(3) [OF f]
  have "last_duration (sinfoScraper s') = snd (sinfo_run env (calls (sinfoScraper s)))"
    by (simp add: fetch_start_def)
  with f False show ?thesis
    by (simp add: cli_FetchMetrics_miss [OF False] GpuCliFallbackFetcher_ScrapeDuration_def split: sum.splits)
qed

text \<open>
  Claim C10, amended. For both variants, \<open>ScrapeDuration()\<close> returns the wall time of
  the most recent invocation of the sinfo scraper made by that fetcher: after a fetch
  it is the wall time of the sinfo invocation of that fetch, the newest sinfo entry
  among the invocations, whether or not the sacct scraper ran after it; after a
  \<open>FetchMetrics\<close> that hit the cache it is what it was before.
\<close>

theorem ScrapeDuration_sinfo_C10:
  "GpuJsonFetcher_ScrapeDuration (snd (GpuJsonFetcher_fetch env s))
     = snd (sinfo_run env (calls (sinfoScraper s)))
   \<and> find (\<lambda>e. fst e = Sinfo) (scrapes (snd (GpuJsonFetcher_fetch env s)))
     = Some (Sinfo, GpuJsonFetcher_ScrapeDuration (snd (GpuJsonFetcher_fetch env s)))
   \<and> GpuCliFallbackFetcher_ScrapeDuration (snd (GpuCliFallbackFetcher_fetch env s))
     = snd (sinfo_run env (calls (sinfoScraper s)))
   \<and> find (\<lambda>e. fst e = Sinfo) (scrapes (snd (GpuCliFallbackFetcher_fetch env s)))
     = Some (Sinfo, GpuCliFallbackFetcher_ScrapeDuration (snd (GpuCliFallbackFetcher_fetch env s)))
   \<and> GpuJsonFetcher_ScrapeDuration (snd (GpuJsonFetcher_FetchMetrics env s))
     = (if cache_hit env s then GpuJsonFetcher_ScrapeDuration s
        else snd (sinfo_run env (calls (sinfoScraper s))))
   \<and> GpuCliFallbackFetcher_ScrapeDuration (snd (GpuCliFallbackFetcher_FetchMetrics env s))
     = (if cache_hit env s then GpuCliFallbackFetcher_ScrapeDuration s
        else snd (sinfo_run env (calls (sinfoScraper s))))"
proof -
  obtain r s' where j: "GpuJsonFetcher_fetch env s = (r, s')"
    by (cases "GpuJsonFetcher_fetch env s")
  obtain r2 s2 where c: "GpuCliFallbackFetcher_fetch env s = (r2, s2)"
    by (cases "GpuCliFallbackFetcher_fetch env s")
  have jd: "GpuJsonFetcher_ScrapeDuration s' = snd (sinfo_run env (calls (sinfoScraper s)))"
    using json_fetch_frame(3) [OF j] by (simp add: GpuJsonFetcher_ScrapeDuration_def)
  have cd: "GpuCliFallbackFetcher_ScrapeDuration s2 = snd (sinfo_run env (calls (sinfoScraper s)))"
    using cli_fetch_frame(3) [OF c] by (simp add: GpuCliFallbackFetcher_ScrapeDuration_def)
  from j c jd cd json_fetch_scrapes [OF j] cli_fetch_scrapes [OF c]
  show ?thesis
    by (simp add: json_FetchMetrics_duration cli_FetchMetrics_duration)
qed

text \<open>
  Claim C10 as stated fails. A fetch invokes the sinfo scraper and then the sacct
  scraper; after it the most recent scraper call of the fetcher is the sacct call, which
  took 7 ns, and \<open>ScrapeDuration()\<close> returns the 3 ns of the sinfo call.
\<close>

theorem ScrapeDuration_C10_counterexample:
  "scrapes (snd (GpuJsonFetcher_FetchMetrics mock_env (NewGpuFetcher 10))) = [(Sacct, 7), (Sinfo, 3)]
   \<and> GpuJsonFetcher_ScrapeDuration (snd (GpuJsonFetcher_FetchMetrics mock_env (NewGpuFetcher 10))) = 3
   \<and> scrapes (snd (GpuCliFallbackFetcher_FetchMetrics mock_env (NewGpuFetcher 10))) = [(Sacct, 7), (Sinfo, 3)]
   \<and> GpuCliFallbackFetcher_ScrapeDuration (snd (GpuCliFallbackFetcher_FetchMetrics mock_env (NewGpuFetcher 10))) = 3"
  by code_simp

section \<open>What each kind of failure does\<close>

text \<open>Failures of the sinfo stage.\<close>

lemma json_fetch_sinfo_transport:
  "fst (sinfo_run env (calls (sinfoScraper s))) = Inl e \<Longrightarrow>
   fails_with (GpuJsonFetcher_fetch env s) s e [] 0"
  by (simp add: fails_with_def GpuJsonFetcher_fetch_def GpuJsonFetcher_fetchTotalGpus_def
        sinfo_FetchRawBytes_eq)

lemma json_fetch_sinfo_decode:
  "fst (sinfo_run env (calls (sinfoScraper s))) = Inr b \<Longrightarrow> json_sinfo env b = Inl e \<Longrightarrow>
   fails_with (GpuJsonFetcher_fetch env s) s e
     [slog_Error ''Unmarshaling sinfo GPU metrics: %q'' (err_msg e)] 0"
  by (simp add: fails_with_def GpuJsonFetcher_fetch_def GpuJsonFetcher_fetchTotalGpus_def
        sinfo_FetchRawBytes_eq)

lemma json_fetch_sinfo_upstream:
  "fst (sinfo_run env (calls (sinfoScraper s))) = Inr b \<Longrightarrow> json_sinfo env b = Inr r \<Longrightarrow>
   sinfo_Errors r \<noteq> [] \<Longrightarrow>
   fails_with (GpuJsonFetcher_fetch env s) s (Error (hd (sinfo_Errors r)))
     (map (slog_Error ''sinfo API error response: %q'') (sinfo_Errors r)) (length (sinfo_Errors r))"
  by (simp add: fails_with_def GpuJsonFetcher_fetch_def GpuJsonFetcher_fetchTotalGpus_def
        sinfo_FetchRawBytes_eq)

lemma cli_fetch_sinfo_transport:
  "fst (sinfo_run env (calls (sinfoScraper s))) = Inl e \<Longrightarrow>
   fails_with (GpuCliFallbackFetcher_fetch env s) s e [] 0"
  by (simp add: fails_with_def GpuCliFallbackFetcher_fetch_def GpuCliFallbackFetcher_fetchTotalGpus_def
        sinfo_FetchRawBytes_eq)

lemma cli_fetch_sinfo_csv:
  "fst (sinfo_run env (calls (sinfoScraper s))) = Inr b \<Longrightarrow> TrimSpace b \<noteq> [] \<Longrightarrow>
   csv_ReadAll env (TrimSpace b) = Inl e \<Longrightarrow>
   fails_with (GpuCliFallbackFetcher_fetch env s) s e
     [slog_Error ''Failed to parse sinfo GPU output: %q'' (err_msg e)] 1"
  by (simp add: fails_with_def GpuCliFallbackFetcher_fetch_def GpuCliFallbackFetcher_fetchTotalGpus_def
        sinfo_FetchRawBytes_eq Let_def)

text \<open>Failures of the sacct stage, which runs when the sinfo stage has succeeded.\<close>

lemma json_fetch_sacct_transport:
  assumes "fst (GpuJsonFetcher_fetchTotalGpus env s) = Inr t"
    and "fst (sacct_run env (calls (sacctScraper s))) = Inl e"
  shows "fails_with (GpuJsonFetcher_fetch env s) s e [] 0"
proof -
  obtain s1 where t: "GpuJsonFetcher_fetchTotalGpus env s = (Inr t, s1)"
    using assms(1) by (cases "GpuJsonFetcher_fetchTotalGpus env s") auto
  from json_total_frame [OF t] have "sacctScraper s1 = sacctScraper s" "slog s1 = slog s"
    "errorCounter s1 = errorCounter s"
    by (auto simp: after_sinfo_def quiet_def)
  with t assms(2) show ?thesis
    by (simp add: fails_with_def GpuJsonFetcher_fetch_def GpuJsonFetcher_fetchAllocatedGpus_def
          sacct_FetchRawBytes_eq)
qed

lemma json_fetch_sacct_decode:
  assumes "fst (GpuJsonFetcher_fetchTotalGpus env s) = Inr t"
    and "fst (sacct_run env (calls (sacctScraper s))) = Inr b" and "json_sacct env b = Inl e"
  shows "fails_with (GpuJsonFetcher_fetch env s) s e
     [slog_Error ''Unmarshaling sacct GPU metrics: %q'' (err_msg e)] 0"
proof -
  obtain s1 where t: "GpuJsonFetcher_fetchTotalGpus env s = (Inr t, s1)"
    using assms(1) by (cases "GpuJsonFetcher_fetchTotalGpus env s") auto
  from json_total_frame [OF t] have "sacctScraper s1 = sacctScraper s" "slog s1 = slog s"
    "errorCounter s1 = errorCounter s"
    by (auto simp: after_sinfo_def quiet_def)
  with t assms(2,3) show ?thesis
    by (simp add: fails_with_def GpuJsonFetcher_fetch_def GpuJsonFetcher_fetchAllocatedGpus_def
          sacct_FetchRawBytes_eq)
qed

lemma json_fetch_sacct_upstream:
  assumes "fst (GpuJsonFetcher_fetchTotalGpus env s) = Inr t"
    and "fst (sacct_run env (calls (sacctScraper s))) = Inr b" and "json_sacct env b = Inr r"
    and "sacct_Errors r \<noteq> []"
  shows "fails_with (GpuJsonFetcher_fetch env s) s (Error (hd (sacct_Errors r)))
     (map (slog_Error ''sacct API error response: %q'') (sacct_Errors r)) (length (sacct_Errors r))"
proof -
  obtain s1 where t: "GpuJsonFetcher_fetchTotalGpus env s = (Inr t, s1)"
    using assms(1) by (cases "GpuJsonFetcher_fetchTotalGpus env s") auto
  from json_total_frame [OF t] have "sacctScraper s1 = sacctScraper s" "slog s1 = slog s"
    "errorCounter s1 = errorCounter s"
    by (auto simp: after_sinfo_def quiet_def)
  with t assms(2,3,4) show ?thesis
    by (simp add: fails_with_def GpuJsonFetcher_fetch_def GpuJsonFetcher_fetchAllocatedGpus_def
          sacct_FetchRawBytes_eq)
qed

lemma cli_fetch_sacct_transport:
  assumes "fst (GpuCliFallbackFetcher_fetchTotalGpus env s) = Inr t"
    and "fst (sacct_run env (calls (sacctScraper s))) = Inl e"
  shows "fails_with (GpuCliFallbackFetcher_fetch env s) s e [] 0"
proof -
  obtain s1 where t: "GpuCliFallbackFetcher_fetchTotalGpus env s = (Inr t, s1)"
    using assms(1) by (cases "GpuCliFallbackFetcher_fetchTotalGpus env s") auto
  from cli_total_frame [OF t] have "sacctScraper s1 = sacctScraper s" "slog s1 = slog s"
    "errorCounter s1 = errorCounter s"
    by (auto simp: after_sinfo_def quiet_def)
  with t assms(2) show ?thesis
    by (simp add: fails_with_def GpuCliFallbackFetcher_fetch_def
          GpuCliFallbackFetcher_fetchAllocatedGpus_def sacct_FetchRawBytes_eq)
qed

text \<open>A failed fetch of a call that missed the cache is the outcome of the call.\<close>

lemma json_FetchMetrics_fails:
  assumes "\<not> cache_hit env s" and "fails_with (GpuJsonFetcher_fetch env (fetch_start s)) (fetch_start s) e l c"
  shows "fails_with (GpuJsonFetcher_FetchMetrics env s) s e l c"
proof -
  obtain r s' where f: "GpuJsonFetcher_fetch env (fetch_start s) = (r, s')"
    by (cases "GpuJsonFetcher_fetch env (fetch_start s)")
  with assms(2) have "r = Inl e" by (simp add: fails_with_def)
  with f assms show ?thesis
    by (simp add: json_FetchMetrics_miss fails_with_def fetch_start_def)
qed

lemma cli_FetchMetrics_fails:
  assumes "\<not> cache_hit env s"
    and "fails_with (GpuCliFallbackFetcher_fetch env (fetch_start s)) (fetch_start s) e l c"
  shows "fails_with (GpuCliFallbackFetcher_FetchMetrics env s) s e l c"
proof -
  obtain r s' where f: "GpuCliFallbackFetcher_fetch env (fetch_start s) = (r, s')"
    by (cases "GpuCliFallbackFetcher_fetch env (fetch_start s)")
  with assms(2) have "r = Inl e" by (simp add: fails_with_def)
  with f assms show ?thesis
    by (simp add: cli_FetchMetrics_miss fails_with_def fetch_start_def)
qed

lemma fetch_start_same:
  "calls (sinfoScraper (fetch_start s)) = calls (sinfoScraper s)"
  "calls (sacctScraper (fetch_start s)) = calls (sacctScraper s)"
  by (simp_all add: fetch_start_def)

text \<open>
  Claim C8, amended. A call of \<open>FetchMetrics\<close> that misses the cache and whose fetch is
  aborted by a transport error, a decode error, an upstream-reported error or a failure
  of the CSV reader returns that error, and the collector that made the call logs it
  and sends no gauge. What the fetcher itself logs and counts depends on the kind: an
  upstream-reported error list is logged entry by entry and adds its length to the
  error counter, and the fetch fails with its first entry; a failure of the CSV reader
  on the sinfo output, which is how a malformed record shows, is logged and adds one;
  a decode error is logged and adds nothing; a transport error is neither logged nor
  counted by the fetcher.
\<close>

theorem FetchMetrics_failure_kinds_C8:
  "(\<not> cache_hit env s \<and> fst (sinfo_run env (calls (sinfoScraper s))) = Inl e \<longrightarrow>
      fails_with (GpuJsonFetcher_FetchMetrics env s) s e [] 0
      \<and> fails_with (GpuCliFallbackFetcher_FetchMetrics env s) s e [] 0)
   \<and> (\<not> cache_hit env s \<and> fst (sinfo_run env (calls (sinfoScraper s))) = Inr b
       \<and> json_sinfo env b = Inl e \<longrightarrow>
      fails_with (GpuJsonFetcher_FetchMetrics env s) s e
        [slog_Error ''Unmarshaling sinfo GPU metrics: %q'' (err_msg e)] 0)
   \<and> (\<not> cache_hit env s \<and> fst (sinfo_run env (calls (sinfoScraper s))) = Inr b
       \<and> json_sinfo env b = Inr r \<and> sinfo_Errors r \<noteq> [] \<longrightarrow>
      fails_with (GpuJsonFetcher_FetchMetrics env s) s (Error (hd (sinfo_Errors r)))
        (map (slog_Error ''sinfo API error response: %q'') (sinfo_Errors r))
        (length (sinfo_Errors r)))
   \<and> (\<not> cache_hit env s \<and> fst (sinfo_run env (calls (sinfoScraper s))) = Inr b
       \<and> TrimSpace b \<noteq> [] \<and> csv_ReadAll env (TrimSpace b) = Inl e \<longrightarrow>
      fails_with (GpuCliFallbackFetcher_FetchMetrics env s) s e
        [slog_Error ''Failed to parse sinfo GPU output: %q'' (err_msg e)] 1)
   \<and> (\<not> cache_hit env s \<and> fst (GpuJsonFetcher_fetchTotalGpus env (fetch_start s)) = Inr t
       \<and> fst (sacct_run env (calls (sacctScraper s))) = Inl e \<longrightarrow>
      fails_with (GpuJsonFetcher_FetchMetrics env s) s e [] 0)
   \<and> (\<not> cache_hit env s \<and> fst (GpuJsonFetcher_fetchTotalGpus env (fetch_start s)) = Inr t
       \<and> fst (sacct_run env (calls (sacctScraper s))) = Inr b \<and> json_sacct env b = Inl e \<longrightarrow>
      fails_with (GpuJsonFetcher_FetchMetrics env s) s e
        [slog_Error ''Unmarshaling sacct GPU metrics: %q'' (err_msg e)] 0)
   \<and> (\<not> cache_hit env s \<and> fst (GpuJsonFetcher_fetchTotalGpus env (fetch_start s)) = Inr t
       \<and> fst (sacct_run env (calls (sacctScraper s))) = Inr b \<and> json_sacct env b = Inr q
       \<and> sacct_Errors q \<noteq> [] \<longrightarrow>
      fails_with (GpuJsonFetcher_FetchMetrics env s) s (Error (hd (sacct_Errors q)))
        (map (slog_Error ''sacct API error response: %q'') (sacct_Errors q))
        (length (sacct_Errors q)))
   \<and> (\<not> cache_hit env s \<and> fst (GpuCliFallbackFetcher_fetchTotalGpus env (fetch_start s)) = Inr t
       \<and> fst (sacct_run env (calls (sacctScraper s))) = Inl e \<longrightarrow>
      fails_with (GpuCliFallbackFetcher_FetchMetrics env s) s e [] 0)
   \<and> (fst (fetcher_FetchMetrics env s) = Inl e \<longrightarrow>
      GpuCollector_Collect fetcher_FetchMetrics env s =
        ([], (snd (fetcher_FetchMetrics env s))
               \<lparr>slog := slog (snd (fetcher_FetchMetrics env s))
                          @ [slog_Error ''Failed to fetch GPU metrics: %q'' (err_msg e)]\<rparr>))"
proof -
  have a1: "fails_with (GpuJsonFetcher_FetchMetrics env s) s e [] 0"
    and a2: "fails_with (GpuCliFallbackFetcher_FetchMetrics env s) s e [] 0"
    if "\<not> cache_hit env s \<and> fst (sinfo_run env (calls (sinfoScraper s))) = Inl e"
    using that json_fetch_sinfo_transport [of env "fetch_start s" e]
      cli_fetch_sinfo_transport [of env "fetch_start s" e]
    by (simp_all add: fetch_start_same json_FetchMetrics_fails cli_FetchMetrics_fails)
  have a3: "fails_with (GpuJsonFetcher_FetchMetrics env s) s e
        [slog_Error ''Unmarshaling sinfo GPU metrics: %q'' (err_msg e)] 0"
    if "\<not> cache_hit env s \<and> fst (sinfo_run env (calls (sinfoScraper s))) = Inr b
       \<and> json_sinfo env b = Inl e"
    using that json_fetch_sinfo_decode [of env "fetch_start s" b e]
    by (simp add: fetch_start_same json_FetchMetrics_fails)
  have a4: "fails_with (GpuJsonFetcher_FetchMetrics env s) s (Error (hd (sinfo_Errors r)))
        (map (slog_Error ''sinfo API error response: %q'') (sinfo_Errors r))
        (length (sinfo_Errors r))"
    if "\<not> cache_hit env s \<and> fst (sinfo_run env (calls (sinfoScraper s))) = Inr b
       \<and> json_sinfo env b = Inr r \<and> sinfo_Errors r \<noteq> []"
    using that json_fetch_sinfo_upstream [of env "fetch_start s" b r]
    by (simp add: fetch_start_same json_FetchMetrics_fails)
  have a5: "fails_with (GpuCliFallbackFetcher_FetchMetrics env s) s e
        [slog_Error ''Failed to parse sinfo GPU output: %q'' (err_msg e)] 1"
    if "\<not> cache_hit env s \<and> fst (sinfo_run env (calls (sinfoScraper s))) = Inr b
       \<and> TrimSpace b \<noteq> [] \<and> csv_ReadAll env (TrimSpace b) = Inl e"
    using that cli_fetch_sinfo_csv [of env "fetch_start s" b e]
    by (simp add: fetch_start_same cli_FetchMetrics_fails)
  have a6: "fails_with (GpuJsonFetcher_FetchMetrics env s) s e [] 0"
    if "\<not> cache_hit env s \<and> fst (GpuJsonFetcher_fetchTotalGpus env (fetch_start s)) = Inr t
       \<and> fst (sacct_run env (calls (sacctScraper s))) = Inl e"
    using that json_fetch_sacct_transport [of env "fetch_start s" t e]
    by (simp add: fetch_start_same json_FetchMetrics_fails)
  have a7: "fails_with (GpuJsonFetcher_FetchMetrics env s) s e
        [slog_Error ''Unmarshaling sacct GPU metrics: %q'' (err_msg e)] 0"
    if "\<not> cache_hit env s \<and> fst (GpuJsonFetcher_fetchTotalGpus env (fetch_start s)) = Inr t
       \<and> fst (sacct_run env (calls (sacctScraper s))) = Inr b \<and> json_sacct env b = Inl e"
    using that json_fetch_sacct_decode [of env "fetch_start s" t b e]
    by (simp add: fetch_start_same json_FetchMetrics_fails)
  have a8: "fails_with (GpuJsonFetcher_FetchMetrics env s) s (Error (hd (sacct_Errors q)))
        (map (slog_Error ''sacct API error response: %q'') (sacct_Errors q))
        (length (sacct_Errors q))"
    if "\<not> cache_hit env s \<and> fst (GpuJsonFetcher_fetchTotalGpus env (fetch_start s)) = Inr t
       \<and> fst (sacct_run env (calls (sacctScraper s))) = Inr b \<and> json_sacct env b = Inr q
       \<and> sacct_Errors q \<noteq> []"
    using that json_fetch_sacct_upstream [of env "fetch_start s" t b q]
    by (simp add: fetch_start_same json_FetchMetrics_fails)
  have a9: "fails_with (GpuCliFallbackFetcher_FetchMetrics env s) s e [] 0"
    if "\<not> cache_hit env s \<and> fst (GpuCliFallbackFetcher_fetchTotalGpus env (fetch_start s)) = Inr t
       \<and> fst (sacct_run env (calls (sacctScraper s))) = Inl e"
    using that cli_fetch_sacct_transport [of env "fetch_start s" t e]
    by (simp add: fetch_start_same cli_FetchMetrics_fails)
  have a10: "GpuCollector_Collect fetcher_FetchMetrics env s =
        ([], (snd (fetcher_FetchMetrics env s))
               \<lparr>slog := slog (snd (fetcher_FetchMetrics env s))
                          @ [slog_Error ''Failed to fetch GPU metrics: %q'' (err_msg e)]\<rparr>)"
    if "fst (fetcher_FetchMetrics env s) = Inl e"
    using that by (cases "fetcher_FetchMetrics env s") (simp add: GpuCollector_Collect_def)
  from a1 a2 a3 a4 a5 a6 a7 a8 a9 a10 show ?thesis by blast
qed

theorem FetchMetrics_failure_kinds_C8_witness:
  "\<not> cache_hit mock_env_down stale_state
   \<and> fails_with (GpuJsonFetcher_FetchMetrics mock_env_down stale_state) stale_state
        (Error ''exit status 1'') [] 0
   \<and> fails_with (GpuCliFallbackFetcher_FetchMetrics mock_env_down stale_state) stale_state
        (Error ''exit status 1'') [] 0
   \<and> fails_with
        (GpuJsonFetcher_FetchMetrics
           (mock_env\<lparr>json_sinfo := (\<lambda>b. Inr \<lparr>sinfo_Errors = [''down'', ''busy''], Nodes = []\<rparr>)\<rparr>)
           (NewGpuFetcher 10))
        (NewGpuFetcher 10) (Error ''down'')
        [slog_Error ''sinfo API error response: %q'' ''down'',
         slog_Error ''sinfo API error response: %q'' ''busy''] 2
   \<and> fails_with
        (GpuCliFallbackFetcher_FetchMetrics
           (mock_env\<lparr>csv_ReadAll := (\<lambda>b. Inl (Error ''wrong number of fields''))\<rparr>)
           (NewGpuFetcher 10))
        (NewGpuFetcher 10) (Error ''wrong number of fields'')
        [slog_Error ''Failed to parse sinfo GPU output: %q'' ''wrong number of fields''] 1
   \<and> fst (GpuCollector_Collect GpuJsonFetcher_FetchMetrics mock_env_down stale_state) = []
   \<and> slog (snd (GpuCollector_Collect GpuJsonFetcher_FetchMetrics mock_env_down stale_state))
       = slog stale_state @ [slog_Error ''Failed to fetch GPU metrics: %q'' ''exit status 1'']"
proof -
  let ?up = "mock_env\<lparr>json_sinfo := (\<lambda>b. Inr \<lparr>sinfo_Errors = [''down'', ''busy''], Nodes = []\<rparr>)\<rparr>"
  let ?csv = "mock_env\<lparr>csv_ReadAll := (\<lambda>b. Inl (Error ''wrong number of fields''))\<rparr>"
  let ?out = "''n1|gpu:4\<newline>n2|gpu:a100:4(IDX:0-3)''"
  have m1: "\<not> cache_hit mock_env_down stale_state" by code_simp
  have r1: "fst (sinfo_run mock_env_down (calls (sinfoScraper stale_state))) = Inl (Error ''exit status 1'')"
    by (simp add: mock_env_down_def)
  have m2: "\<not> cache_hit ?up (NewGpuFetcher 10)" by code_simp
  have r2: "fst (sinfo_run ?up (calls (sinfoScraper (NewGpuFetcher 10)))) = Inr ?out"
    by (simp add: mock_env_def)
  have d2: "json_sinfo ?up ?out = Inr \<lparr>sinfo_Errors = [''down'', ''busy''], Nodes = []\<rparr>"
    by simp
  have m3: "\<not> cache_hit ?csv (NewGpuFetcher 10)" by code_simp
  have r3: "fst (sinfo_run ?csv (calls (sinfoScraper (NewGpuFetcher 10)))) = Inr ?out"
    by (simp add: mock_env_def)
  have t3: "TrimSpace ?out \<noteq> []" by code_simp
  have d3: "csv_ReadAll ?csv (TrimSpace ?out) = Inl (Error ''wrong number of fields'')"
    by simp
  from FetchMetrics_failure_kinds_C8
    [where env = mock_env_down and s = stale_state and e = "Error ''exit status 1''"] m1 r1
  have w1: "fails_with (GpuJsonFetcher_FetchMetrics mock_env_down stale_state) stale_state
        (Error ''exit status 1'') [] 0"
    and w2: "fails_with (GpuCliFallbackFetcher_FetchMetrics mock_env_down stale_state) stale_state
        (Error ''exit status 1'') [] 0"
    by blast+
  from FetchMetrics_failure_kinds_C8
    [where env = ?up and s = "NewGpuFetcher 10" and b = ?out
       and r = "\<lparr>sinfo_Errors = [''down'', ''busy''], Nodes = []\<rparr>"] m2 r2 d2
  have w3: "fails_with (GpuJsonFetcher_FetchMetrics ?up (NewGpuFetcher 10)) (NewGpuFetcher 10)
        (Error ''down'')
        [slog_Error ''sinfo API error response: %q'' ''down'',
         slog_Error ''sinfo API error response: %q'' ''busy''] 2"
    by (simp add: numeral_2_eq_2)
  from FetchMetrics_failure_kinds_C8
    [where env = ?csv and s = "NewGpuFetcher 10" and b = ?out
       and e = "Error ''wrong number of fields''"] m3 r3 t3 d3
  have w4: "fails_with (GpuCliFallbackFetcher_FetchMetrics ?csv (NewGpuFetcher 10)) (NewGpuFetcher 10)
        (Error ''wrong number of fields'')
        [slog_Error ''Failed to parse sinfo GPU output: %q'' ''wrong number of fields''] 1"
    by simp
  from w1 have f5: "fst (GpuJsonFetcher_FetchMetrics mock_env_down stale_state) = Inl (Error ''exit status 1'')"
    and l5: "slog (snd (GpuJsonFetcher_FetchMetrics mock_env_down stale_state)) = slog stale_state"
    by (simp_all add: fails_with_def)
  from FetchMetrics_failure_kinds_C8
    [where fetcher_FetchMetrics = GpuJsonFetcher_FetchMetrics and env = mock_env_down
       and s = stale_state and e = "Error ''exit status 1''" and b = "[]" and t = 0
       and r = "\<lparr>sinfo_Errors = [], Nodes = []\<rparr>" and q = "\<lparr>sacct_Errors = [], Jobs = []\<rparr>"]
  have "fst (GpuJsonFetcher_FetchMetrics mock_env_down stale_state) = Inl (Error ''exit status 1'') \<longrightarrow>
      GpuCollector_Collect GpuJsonFetcher_FetchMetrics mock_env_down stale_state =
        ([], (snd (GpuJsonFetcher_FetchMetrics mock_env_down stale_state))
               \<lparr>slog := slog (snd (GpuJsonFetcher_FetchMetrics mock_env_down stale_state))
                          @ [slog_Error ''Failed to fetch GPU metrics: %q'' (err_msg (Error ''exit status 1''))]\<rparr>)"
    by (elim conjE)
  with f5
  have "GpuCollector_Collect GpuJsonFetcher_FetchMetrics mock_env_down stale_state =
        ([], (snd (GpuJsonFetcher_FetchMetrics mock_env_down stale_state))
               \<lparr>slog := slog (snd (GpuJsonFetcher_FetchMetrics mock_env_down stale_state))
                          @ [slog_Error ''Failed to fetch GPU metrics: %q'' (err_msg (Error ''exit status 1''))]\<rparr>)"
    by simp
  with l5 have w5: "fst (GpuCollector_Collect GpuJsonFetcher_FetchMetrics mock_env_down stale_state) = []"
    and w6: "slog (snd (GpuCollector_Collect GpuJsonFetcher_FetchMetrics mock_env_down stale_state))
       = slog stale_state @ [slog_Error ''Failed to fetch GPU metrics: %q'' ''exit status 1'']"
    by simp_all
  from m1 w1 w2 w3 w4 w5 w6 show ?thesis by blast
qed

text \<open>
  Claim C8 as stated fails: not every kind adds to the error counter. A sinfo answer
  that does not decode aborts the fetch and is logged, and a sinfo command that cannot
  run aborts the fetch, but in both cases the error counter stays as it was.
\<close>

theorem FetchMetrics_failure_kinds_C8_counterexample:
  "fst (GpuJsonFetcher_FetchMetrics
          (mock_env\<lparr>json_sinfo := (\<lambda>b. Inl (Error ''invalid character''))\<rparr>) (NewGpuFetcher 10))
     = Inl (Error ''invalid character'')
   \<and> errorCounter (snd (GpuJsonFetcher_FetchMetrics
          (mock_env\<lparr>json_sinfo := (\<lambda>b. Inl (Error ''invalid character''))\<rparr>) (NewGpuFetcher 10)))
     = errorCounter (NewGpuFetcher 10)
   \<and> fst (GpuJsonFetcher_FetchMetrics mock_env_down (NewGpuFetcher 10)) = Inl (Error ''exit status 1'')
   \<and> errorCounter (snd (GpuJsonFetcher_FetchMetrics mock_env_down (NewGpuFetcher 10)))
     = errorCounter (NewGpuFetcher 10)
   \<and> fst (GpuCliFallbackFetcher_FetchMetrics mock_env_down (NewGpuFetcher 10)) = Inl (Error ''exit status 1'')
   \<and> errorCounter (snd (GpuCliFallbackFetcher_FetchMetrics mock_env_down (NewGpuFetcher 10)))
     = errorCounter (NewGpuFetcher 10)
   \<and> errorCounter (snd (GpuCollector_Collect GpuJsonFetcher_FetchMetrics mock_env_down (NewGpuFetcher 10)))
     = errorCounter (NewGpuFetcher 10)"
  by code_simp

end
